theory Spec2Isabelle
  imports Main "HOL-Library.AList" "HOL-Library.Char_ord" "HOL-Library.List_Lexorder"
begin

section \<open>Strings\<close>

text \<open>
  A Python \<open>str\<close> is modelled by its UTF-8 encoding, a \<^typ>\<open>string\<close> of bytes: this is
  what \<open>open(..., encoding='utf-8')\<close> puts into the index file. The operations the script
  uses agree on both views: \<open>sorted\<close> compares code points and UTF-8 keeps their order,
  the suffix \<open>.md\<close> and the backslash are single bytes that occur inside no multi-byte
  sequence, and \<open>md_file[:-3]\<close> is only applied to names that end with \<open>.md\<close>.
  The three Chinese literals of the script are spelled out byte by byte.
\<close>

definition newline :: string where
  "newline = [CHR 0x0A]"

definition backslash :: char where
  "backslash = CHR 0x5C"

definition inaccessible_label :: string where
  \<comment> \<open>the text between the brackets of \<open>* [...]\<close> that marks a directory that cannot be read\<close>
  "inaccessible_label =
     [CHR 0xE6, CHR 0x97, CHR 0xA0, CHR 0xE6, CHR 0xB3, CHR 0x95, CHR 0xE8, CHR 0xAE, CHR 0xBF,
      CHR 0xE9, CHR 0x97, CHR 0xAE, CHR 0xE7, CHR 0x9B, CHR 0xAE, CHR 0xE5, CHR 0xBD, CHR 0x95]"

definition toc_title :: string where
  \<comment> \<open>the literal of the level-2 heading (table of contents)\<close>
  "toc_title = [CHR 0xE7, CHR 0x9B, CHR 0xAE, CHR 0xE5, CHR 0xBD, CHR 0x95]"

definition no_content_label :: string where
  \<comment> \<open>the text of the placeholder bullet (no content yet)\<close>
  "no_content_label =
     [CHR 0xE6, CHR 0x9A, CHR 0x82, CHR 0xE6, CHR 0x97, CHR 0xA0,
      CHR 0xE5, CHR 0x86, CHR 0x85, CHR 0xE5, CHR 0xAE, CHR 0xB9]"

definition endswith :: "string \<Rightarrow> string \<Rightarrow> bool" where
  "endswith s suffix \<longleftrightarrow>
     length suffix \<le> length s \<and> drop (length s - length suffix) s = suffix"

definition replace_char :: "char \<Rightarrow> char \<Rightarrow> string \<Rightarrow> string" where
  \<comment> \<open>\<open>s.replace(a, b)\<close> for one-character \<open>a\<close> and \<open>b\<close>\<close>
  "replace_char a b s = map (\<lambda>c. if c = a then b else c) s"

fun join_with :: "string \<Rightarrow> string list \<Rightarrow> string" where
  \<comment> \<open>\<open>sep.join(parts)\<close>\<close>
  "join_with sep [] = []"
| "join_with sep [p] = p"
| "join_with sep (p # ps) = p @ sep @ join_with sep ps"

text \<open>
  \<open>str.strip()\<close> removes the white space of Python 3 at both ends; the white-space code
  points are listed here in UTF-8.
\<close>

definition whitespace :: "string list" where
  "whitespace =
     [[CHR 0x09], [CHR 0x0A], [CHR 0x0B], [CHR 0x0C], [CHR 0x0D],
      [CHR 0x1C], [CHR 0x1D], [CHR 0x1E], [CHR 0x1F], [CHR 0x20],
      [CHR 0xC2, CHR 0x85], [CHR 0xC2, CHR 0xA0], [CHR 0xE1, CHR 0x9A, CHR 0x80],
      [CHR 0xE2, CHR 0x80, CHR 0x80], [CHR 0xE2, CHR 0x80, CHR 0x81],
      [CHR 0xE2, CHR 0x80, CHR 0x82], [CHR 0xE2, CHR 0x80, CHR 0x83],
      [CHR 0xE2, CHR 0x80, CHR 0x84], [CHR 0xE2, CHR 0x80, CHR 0x85],
      [CHR 0xE2, CHR 0x80, CHR 0x86], [CHR 0xE2, CHR 0x80, CHR 0x87],
      [CHR 0xE2, CHR 0x80, CHR 0x88], [CHR 0xE2, CHR 0x80, CHR 0x89],
      [CHR 0xE2, CHR 0x80, CHR 0x8A], [CHR 0xE2, CHR 0x80, CHR 0xA8],
      [CHR 0xE2, CHR 0x80, CHR 0xA9], [CHR 0xE2, CHR 0x80, CHR 0xAF],
      [CHR 0xE2, CHR 0x81, CHR 0x9F], [CHR 0xE3, CHR 0x80, CHR 0x80]]"

definition leading_space :: "string \<Rightarrow> nat" where
  \<comment> \<open>the length of the white-space character the string starts with, 0 when there is none\<close>
  "leading_space s = (case filter (\<lambda>w. take (length w) s = w) whitespace of
                        [] \<Rightarrow> 0 | w # _ \<Rightarrow> length w)"

lemma leading_space_le: "leading_space s \<le> length s"
proof (cases "filter (\<lambda>w. take (length w) s = w) whitespace")
  case Nil
  then show ?thesis by (simp add: leading_space_def)
next
  case (Cons w ws)
  then have "w \<in> set (filter (\<lambda>w. take (length w) s = w) whitespace)" by simp
  then have "take (length w) s = w" by simp
  then have "length (take (length w) s) = length w" by simp
  then have "length w \<le> length s" by (simp add: min_def split: if_splits)
  with Cons show ?thesis by (simp add: leading_space_def)
qed

function lstrip :: "string \<Rightarrow> string" where
  "lstrip s = (if leading_space s = 0 then s else lstrip (drop (leading_space s) s))"
  by pat_completeness auto
termination
proof (relation "measure length")
  show "wf (measure length)" by simp
next
  fix s :: string
  assume "leading_space s \<noteq> 0"
  with leading_space_le [of s] show "(drop (leading_space s) s, s) \<in> measure length"
    by simp
qed

declare lstrip.simps [simp del]

definition trailing_space :: "string \<Rightarrow> nat" where
  "trailing_space s = (case filter (\<lambda>w. endswith s w) whitespace of
                         [] \<Rightarrow> 0 | w # _ \<Rightarrow> length w)"

lemma trailing_space_le: "trailing_space s \<le> length s"
proof (cases "filter (\<lambda>w. endswith s w) whitespace")
  case Nil
  then show ?thesis by (simp add: trailing_space_def)
next
  case (Cons w ws)
  then have "w \<in> set (filter (\<lambda>w. endswith s w) whitespace)" by simp
  then have "length w \<le> length s" by (simp add: endswith_def)
  with Cons show ?thesis by (simp add: trailing_space_def)
qed

function rstrip :: "string \<Rightarrow> string" where
  "rstrip s = (if trailing_space s = 0 then s
               else rstrip (take (length s - trailing_space s) s))"
  by pat_completeness auto
termination
proof (relation "measure length")
  show "wf (measure length)" by simp
next
  fix s :: string
  assume "trailing_space s \<noteq> 0"
  with trailing_space_le [of s]
  show "(take (length s - trailing_space s) s, s) \<in> measure length"
    by simp
qed

declare rstrip.simps [simp del]

definition strip :: "string \<Rightarrow> string" where
  "strip s = rstrip (lstrip s)"

section \<open>The file system\<close>

text \<open>
  The script reads and writes the file system through \<open>os\<close> and \<open>open\<close>. The file
  system is an explicit value here: a tree whose directories hold their entries in the
  order \<open>os.listdir\<close> reports them. A path is the list of its components below the top
  of the tree (an absolute, normalised path), so that \<open>os.path.join(p, name)\<close> is
  \<open>p @ [name]\<close>.

  A directory carries a flag that says whether it may be listed: \<open>os.listdir\<close> raises
  \<open>PermissionError\<close> on a directory whose flag is \<open>False\<close>, whatever it holds.
  \<open>Special\<close> stands for an entry that is neither a directory nor a regular file
  (a socket, say): \<open>os.path.isdir\<close> and \<open>os.path.isfile\<close> are both false on it.
  Faults of the machine (a directory that disappears during the walk, a full disk, a
  directory that may not be written) are not part of the model.
\<close>

type_synonym path = "string list"

datatype error =
  PermissionError | FileNotFoundError | NotADirectoryError | IsADirectoryError
  | FileExistsError | OSError

datatype node =
  RegFile string
  | Special
  | Dir bool "(string \<times> node) list"

fun lookup :: "node \<Rightarrow> path \<Rightarrow> node option" where
  "lookup t [] = Some t"
| "lookup (Dir r es) (x # xs) = (case map_of es x of None \<Rightarrow> None | Some t \<Rightarrow> lookup t xs)"
| "lookup t (x # xs) = None"

definition path_exists :: "node \<Rightarrow> path \<Rightarrow> bool" where
  "path_exists fs p \<longleftrightarrow> lookup fs p \<noteq> None"

definition isdir :: "node \<Rightarrow> path \<Rightarrow> bool" where
  "isdir fs p = (case lookup fs p of Some (Dir r es) \<Rightarrow> True | _ \<Rightarrow> False)"

definition isfile :: "node \<Rightarrow> path \<Rightarrow> bool" where
  "isfile fs p = (case lookup fs p of Some (RegFile c) \<Rightarrow> True | _ \<Rightarrow> False)"

definition listdir :: "node \<Rightarrow> path \<Rightarrow> error + string list" where
  "listdir fs p =
     (case lookup fs p of
        None \<Rightarrow> Inl FileNotFoundError
      | Some (Dir r es) \<Rightarrow> if r then Inr (map fst es) else Inl PermissionError
      | Some _ \<Rightarrow> Inl NotADirectoryError)"


lemma lookup_append:
  "lookup fs (p @ q) = (case lookup fs p of None \<Rightarrow> None | Some t \<Rightarrow> lookup t q)"
  by (induction fs p rule: lookup.induct) (simp_all split: option.splits)

lemma child_size: "map_of es d = Some t \<Longrightarrow> size t < size (Dir r es)"
proof -
  assume "map_of es d = Some t"
  then have "(d, t) \<in> set es" by (rule map_of_SomeD)
  then show ?thesis by (induction es) auto
qed

subsection \<open>Paths\<close>

definition basename :: "path \<Rightarrow> string" where
  "basename p = (if p = [] then [] else last p)"

definition dirname :: "path \<Rightarrow> path" where
  "dirname p = butlast p"

definition normpath :: "path \<Rightarrow> path" where
  "normpath p =
     foldl (\<lambda>acc c. if c = [] \<or> c = ''.'' then acc
                    else if c = ''..'' then butlast acc
                    else acc @ [c]) [] p"

fun commonprefix :: "path \<Rightarrow> path \<Rightarrow> path" where
  "commonprefix (x # xs) (y # ys) = (if x = y then x # commonprefix xs ys else [])"
| "commonprefix xs ys = []"

definition relpath :: "char \<Rightarrow> path \<Rightarrow> path \<Rightarrow> string" where
  "relpath sep p start =
     (let start_list = normpath start;
          path_list = normpath p;
          i = length (commonprefix start_list path_list);
          rel_list = replicate (length start_list - i) ''..'' @ drop i path_list
      in if rel_list = [] then ''.'' else join_with [sep] rel_list)"

section \<open>The renderer\<close>

definition is_ignored_dir :: "string \<Rightarrow> bool" where
  "is_ignored_dir dir_name \<longleftrightarrow> dir_name \<in> {''.git'', ''__pycache__'', ''.DS_Store''}"

fun classify :: "node \<Rightarrow> path \<Rightarrow> string list \<Rightarrow> string list \<times> string list" where
  "classify fs current_path [] = ([], [])"
| "classify fs current_path (item # items) =
     (let item_path = current_path @ [item];
          (directories, markdown_files) = classify fs current_path items
      in if isdir fs item_path \<and> \<not> is_ignored_dir item then (item # directories, markdown_files)
         else if isfile fs item_path \<and> endswith item ''.md'' \<and> item \<noteq> ''index.md''
           then (directories, item # markdown_files)
         else (directories, markdown_files))"

definition indentation :: "nat \<Rightarrow> string" where
  "indentation base_indent = concat (replicate base_indent ''    '')"

definition display_name :: "string \<Rightarrow> string" where
  "display_name md_file = take (length md_file - 3) md_file"

definition file_link :: "char \<Rightarrow> path \<Rightarrow> path \<Rightarrow> string \<Rightarrow> string" where
  "file_link sep root_path current_path md_file =
     (let relative_dir = relpath sep current_path root_path
      in if relative_dir = ''.'' then md_file
         else replace_char backslash (CHR ''/'') relative_dir @ ''/'' @ md_file)"

definition file_entry :: "char \<Rightarrow> path \<Rightarrow> path \<Rightarrow> nat \<Rightarrow> string \<Rightarrow> string" where
  "file_entry sep root_path current_path base_indent md_file =
     indentation base_indent @ ''* ['' @ display_name md_file @ '']('' @
     file_link sep root_path current_path md_file @ '')'' @ newline"

definition directory_entry :: "nat \<Rightarrow> string \<Rightarrow> string" where
  "directory_entry base_indent directory = indentation base_indent @ ''* '' @ directory @ newline"

definition inaccessible_entry :: "nat \<Rightarrow> string" where
  "inaccessible_entry base_indent =
     indentation base_indent @ ''* ['' @ inaccessible_label @ '']'' @ newline"

definition listable_weight :: "node \<Rightarrow> path \<Rightarrow> nat" where
  "listable_weight fs p = (case lookup fs p of Some (Dir r es) \<Rightarrow> Suc (size (Dir r es)) | _ \<Rightarrow> 0)"

lemma listable_weight_child:
  "listable_weight fs (p @ [d]) < max 1 (listable_weight fs p)"
proof (cases "lookup fs p")
  case None
  then show ?thesis by (simp add: listable_weight_def lookup_append)
next
  case (Some t)
  show ?thesis
  proof (cases t)
    case (Dir r es)
    show ?thesis
    proof (cases "map_of es d")
      case None
      with Some Dir show ?thesis by (simp add: listable_weight_def lookup_append)
    next
      case (Some u)
      with child_size [OF Some, of r] \<open>lookup fs p = Some t\<close> Dir show ?thesis
        by (auto simp: listable_weight_def lookup_append split: node.splits)
    qed
  qed (use Some in \<open>simp_all add: listable_weight_def lookup_append\<close>)
qed

lemma listable_weight_listed: "listdir fs p = Inr names \<Longrightarrow> 0 < listable_weight fs p"
  by (auto simp: listdir_def listable_weight_def split: option.splits node.splits if_splits)

function generate_nested_list :: "char \<Rightarrow> node \<Rightarrow> path \<Rightarrow> path \<Rightarrow> nat \<Rightarrow> error + string"
  and directories_loop :: "char \<Rightarrow> node \<Rightarrow> path \<Rightarrow> path \<Rightarrow> nat \<Rightarrow> string list \<Rightarrow> error + string"
where
  "generate_nested_list sep fs root_path current_path base_indent =
     (case listdir fs current_path of
        Inl e \<Rightarrow> if e = PermissionError then Inr (inaccessible_entry base_indent) else Inl e
      | Inr names \<Rightarrow>
          (let items = sort names;
               directories = fst (classify fs current_path items);
               markdown_files = snd (classify fs current_path items)
           in case directories_loop sep fs root_path current_path base_indent directories of
                Inl e \<Rightarrow> Inl e
              | Inr listed \<Rightarrow>
                  Inr (concat (map (file_entry sep root_path current_path base_indent)
                                   markdown_files) @ listed)))"
| "directories_loop sep fs root_path current_path base_indent [] = Inr []"
| "directories_loop sep fs root_path current_path base_indent (directory # rest) =
     (let dir_path = current_path @ [directory]
      in case generate_nested_list sep fs root_path dir_path (base_indent + 1) of
           Inl e \<Rightarrow> Inl e
         | Inr sub_list \<Rightarrow>
             (case directories_loop sep fs root_path current_path base_indent rest of
                Inl e \<Rightarrow> Inl e
              | Inr listed \<Rightarrow>
                  Inr (directory_entry base_indent directory @
                       (if sub_list \<noteq> [] then sub_list else []) @ listed)))"
  by pat_completeness auto
termination
proof (relation "inv_image (less_than <*lex*> less_than <*lex*> less_than)
        (\<lambda>x. case x of
           Inl (sep, fs, root_path, current_path, base_indent) \<Rightarrow>
             (listable_weight fs current_path, 1::nat, 0::nat)
         | Inr (sep, fs, root_path, current_path, base_indent, ds) \<Rightarrow>
             (max 1 (listable_weight fs current_path), 0, length ds))", goal_cases)
  case 1
  show ?case by (intro wf_inv_image wf_lex_prod wf_less_than)
next
  case (2 sep fs root_path current_path base_indent names)
  then have "0 < listable_weight fs current_path" by (auto dest: listable_weight_listed)
  then show ?case by (simp add: max_def)
next
  case (3 sep fs root_path current_path base_indent directory rest)
  then show ?case using listable_weight_child [of fs current_path directory] by simp
next
  case (4 sep fs root_path current_path base_indent directory rest)
  then show ?case by simp
qed

declare generate_nested_list.simps [simp del]



section \<open>Properties of the renderer\<close>

text \<open>
  A small file system for the examples: the working directory holds the directories
  \<open>proj\<close>, \<open>empty\<close> and \<open>__pycache__\<close> and one file.
\<close>

definition demo_fs :: node where
  "demo_fs =
     Dir True
       [(''proj'', Dir True
          [(''readme.md'', RegFile []), (''notes.md'', RegFile []), (''index.md'', RegFile ''old''),
           (''z.md'', RegFile []), (''todo.txt'', RegFile []), (''sock'', Special),
           (''.git'', Dir True [(''x.md'', RegFile [])]),
           (''locked'', Dir False [(''secret.md'', RegFile [])]),
           (''a'', Dir True []),
           (''src'', Dir True [(''main.md'', RegFile [])])]),
        (''empty'', Dir True []),
        (''__pycache__'', Dir True [(''c.md'', RegFile [])]),
        (''top.md'', RegFile [])]"

lemma classify_directories:
  "fst (classify fs current_path items) =
     filter (\<lambda>item. isdir fs (current_path @ [item]) \<and> \<not> is_ignored_dir item) items"
  by (induction items) (auto simp: Let_def split: prod.splits)

lemma classify_markdown_files:
  "snd (classify fs current_path items) =
     filter (\<lambda>item. \<not> (isdir fs (current_path @ [item]) \<and> \<not> is_ignored_dir item) \<and>
                    isfile fs (current_path @ [item]) \<and> endswith item ''.md'' \<and>
                    item \<noteq> ''index.md'') items"
  by (induction items) (auto simp: Let_def split: prod.splits)

lemma isfile_not_isdir: "isfile fs p \<Longrightarrow> \<not> isdir fs p"
  by (auto simp: isfile_def isdir_def split: option.splits node.splits)

text \<open>
  Claim C4. A directory whose listing raises a permission error is rendered as the single
  line \<open>* [...]\<close> with the inaccessibility label, at the indentation of its level,
  whatever the directory holds: nothing below it is read. The failure does not reach the
  parent: the loop over the parent's directories emits the directory's own bullet, that
  one line, and goes on with the remaining siblings as it would have without it.
\<close>

theorem permission_error_is_local:
  assumes "listdir fs current_path = Inl PermissionError"
  shows "generate_nested_list sep fs root_path current_path base_indent =
           Inr (indentation base_indent @ ''* ['' @ inaccessible_label @ '']'' @ newline)
         \<and> (\<forall>parent directory rest n. current_path = parent @ [directory] \<longrightarrow>
              directories_loop sep fs root_path parent n (directory # rest) =
                (case directories_loop sep fs root_path parent n rest of
                   Inl e \<Rightarrow> Inl e
                 | Inr listed \<Rightarrow>
                     Inr (indentation n @ ''* '' @ directory @ newline @
                          indentation (n + 1) @ ''* ['' @ inaccessible_label @ '']'' @ newline @
                          listed)))"
proof -
  have here: "\<And>n. generate_nested_list sep fs root_path current_path n = Inr (inaccessible_entry n)"
    using assms by (simp add: generate_nested_list.simps)
  have "inaccessible_entry n \<noteq> []" for n
    by (simp add: inaccessible_entry_def)
  with here show ?thesis
    by (auto simp: inaccessible_entry_def directory_entry_def split: sum.splits)
qed


theorem permission_error_is_local_witness:
  "listdir demo_fs [''proj'', ''locked''] = Inl PermissionError
   \<and> generate_nested_list (CHR ''/'') demo_fs [''proj''] [''proj'', ''locked''] 1 =
       Inr (''    * ['' @ inaccessible_label @ '']'' @ newline)
   \<and> directories_loop (CHR ''/'') demo_fs [''proj''] [''proj''] 0 [''locked'', ''src''] =
       Inr (''* locked'' @ newline @ ''    * ['' @ inaccessible_label @ '']'' @ newline @
            ''* src'' @ newline @ ''    * [main](src/main.md)'' @ newline)"
proof -
  have h: "listdir demo_fs [''proj'', ''locked''] = Inl PermissionError"
    by (simp add: listdir_def demo_fs_def)
  have rest: "directories_loop (CHR ''/'') demo_fs [''proj''] [''proj''] 0 [''src''] =
      Inr (''* src'' @ newline @ ''    * [main](src/main.md)'' @ newline)"
    by code_simp
  note t = permission_error_is_local [OF h, of "CHR ''/''" "[''proj'']"]
  have a: "generate_nested_list (CHR ''/'') demo_fs [''proj''] [''proj'', ''locked''] 1 =
       Inr (''    * ['' @ inaccessible_label @ '']'' @ newline)"
    using t [THEN conjunct1, of 1] by (simp add: indentation_def)
  have b0: "directories_loop (CHR ''/'') demo_fs [''proj''] [''proj''] 0 (''locked'' # [''src'']) =
       (case directories_loop (CHR ''/'') demo_fs [''proj''] [''proj''] 0 [''src''] of
          Inl e \<Rightarrow> Inl e
        | Inr listed \<Rightarrow>
            Inr (indentation 0 @ ''* '' @ ''locked'' @ newline @
                 indentation (0 + 1) @ ''* ['' @ inaccessible_label @ '']'' @ newline @ listed))"
    by (rule t [THEN conjunct2, rule_format]) simp
  have b: "directories_loop (CHR ''/'') demo_fs [''proj''] [''proj''] 0 [''locked'', ''src''] =
       Inr (''* locked'' @ newline @ ''    * ['' @ inaccessible_label @ '']'' @ newline @
            ''* src'' @ newline @ ''    * [main](src/main.md)'' @ newline)"
    unfolding b0 rest by (simp add: indentation_def)
  from h a b show ?thesis by blast
qed

lemma isdir_listdir:
  "isdir fs p \<Longrightarrow> listdir fs p = Inl PermissionError \<or> (\<exists>names. listdir fs p = Inr names)"
  by (auto simp: isdir_def listdir_def split: option.splits node.splits)

lemma listdir_isdir: "listdir fs p = Inr names \<Longrightarrow> isdir fs p"
  by (auto simp: isdir_def listdir_def split: option.splits node.splits if_splits)

lemma generate_nested_list_listed:
  "listdir fs current_path = Inr names \<Longrightarrow>
   generate_nested_list sep fs root_path current_path base_indent =
     (case directories_loop sep fs root_path current_path base_indent
             (fst (classify fs current_path (sort names))) of
        Inl e \<Rightarrow> Inl e
      | Inr listed \<Rightarrow>
          Inr (concat (map (file_entry sep root_path current_path base_indent)
                           (snd (classify fs current_path (sort names)))) @ listed))"
  by (simp add: generate_nested_list.simps Let_def)

lemma render_total:
  "isdir fs current_path \<longrightarrow>
     (\<exists>out. generate_nested_list sep fs root_path current_path base_indent = Inr out)"
  "(\<forall>d\<in>set ds. isdir fs (current_path @ [d])) \<longrightarrow>
     directories_loop sep fs root_path current_path base_indent ds =
       Inr (concat (map (\<lambda>d. directory_entry base_indent d @
                projr (generate_nested_list sep fs root_path (current_path @ [d]) (base_indent + 1)))
              ds))"
proof (induction sep fs root_path current_path base_indent
         and sep fs root_path current_path base_indent ds
       rule: generate_nested_list_directories_loop.induct)
  case (1 sep fs root_path current_path base_indent)
  show ?case
  proof
    assume d: "isdir fs current_path"
    from isdir_listdir [OF d] show "\<exists>out. generate_nested_list sep fs root_path current_path base_indent = Inr out"
    proof
      assume "listdir fs current_path = Inl PermissionError"
      then show ?thesis by (simp add: generate_nested_list.simps)
    next
      assume "\<exists>names. listdir fs current_path = Inr names"
      then obtain names where n: "listdir fs current_path = Inr names" ..
      have "\<forall>d\<in>set (fst (classify fs current_path (sort names))). isdir fs (current_path @ [d])"
        by (simp add: classify_directories)
      with 1 [OF n refl refl refl] generate_nested_list_listed [OF n, of sep root_path base_indent]
      show ?thesis by simp
    qed
  qed
next
  case (2 sep fs root_path current_path base_indent)
  show ?case by simp
next
  case (3 sep fs root_path current_path base_indent directory rest)
  show ?case
  proof
    assume a: "\<forall>d\<in>set (directory # rest). isdir fs (current_path @ [d])"
    then have "isdir fs (current_path @ [directory])" by simp
    with 3(1) [OF refl] obtain sub_list where
      s: "generate_nested_list sep fs root_path (current_path @ [directory]) (base_indent + 1) = Inr sub_list"
      by blast
    from a have "\<forall>d\<in>set rest. isdir fs (current_path @ [d])" by simp
    with 3(2) [OF refl s] s
    show "directories_loop sep fs root_path current_path base_indent (directory # rest) =
       Inr (concat (map (\<lambda>d. directory_entry base_indent d @
                projr (generate_nested_list sep fs root_path (current_path @ [d]) (base_indent + 1)))
              (directory # rest)))"
      by simp
  qed
qed

text \<open>
  The names of a real path are never empty, \<open>.\<close> or \<open>..\<close>; on such paths
  \<open>os.path.normpath\<close> changes nothing.
\<close>

definition valid_names :: "path \<Rightarrow> bool" where
  "valid_names p \<longleftrightarrow> (\<forall>c\<in>set p. c \<noteq> [] \<and> c \<noteq> ''.'' \<and> c \<noteq> ''..'')"

lemma normpath_foldl:
  "valid_names p \<Longrightarrow>
   foldl (\<lambda>acc c. if c = [] \<or> c = ''.'' then acc
                  else if c = ''..'' then butlast acc else acc @ [c]) acc p = acc @ p"
  by (induction p arbitrary: acc) (auto simp: valid_names_def)

lemma normpath_valid: "valid_names p \<Longrightarrow> normpath p = p"
  by (simp add: normpath_def normpath_foldl)






lemma display_name_md: "endswith md_file ''.md'' \<Longrightarrow> display_name md_file @ ''.md'' = md_file"
  using append_take_drop_id [of "length md_file - 3" md_file]
  by (simp add: display_name_def endswith_def numeral_3_eq_3)

lemma classify_markdown_files_plain:
  "snd (classify fs current_path items) =
     filter (\<lambda>item. isfile fs (current_path @ [item]) \<and> endswith item ''.md'' \<and>
                    item \<noteq> ''index.md'') items"
proof -
  have "(\<lambda>item. \<not> (isdir fs (current_path @ [item]) \<and> \<not> is_ignored_dir item) \<and>
                    isfile fs (current_path @ [item]) \<and> endswith item ''.md'' \<and>
                    item \<noteq> ''index.md'') =
        (\<lambda>item. isfile fs (current_path @ [item]) \<and> endswith item ''.md'' \<and>
                    item \<noteq> ''index.md'')"
    using isfile_not_isdir by blast
  then show ?thesis by (simp add: classify_markdown_files)
qed

lemma generate_nested_list_level:
  assumes "listdir fs current_path = Inr names"
  shows "generate_nested_list sep fs root_path current_path base_indent =
     Inr (concat (map (file_entry sep root_path current_path base_indent)
                      (filter (\<lambda>item. isfile fs (current_path @ [item]) \<and> endswith item ''.md'' \<and>
                                       item \<noteq> ''index.md'') (sort names))) @
          concat (map (\<lambda>d. directory_entry base_indent d @
                        projr (generate_nested_list sep fs root_path (current_path @ [d])
                                 (base_indent + 1)))
                      (filter (\<lambda>item. isdir fs (current_path @ [item]) \<and> \<not> is_ignored_dir item)
                              (sort names))))"
proof -
  have "\<forall>d\<in>set (fst (classify fs current_path (sort names))). isdir fs (current_path @ [d])"
    by (simp add: classify_directories)
  with render_total(2) [of "fst (classify fs current_path (sort names))" fs current_path sep root_path base_indent]
  have "directories_loop sep fs root_path current_path base_indent (fst (classify fs current_path (sort names))) =
       Inr (concat (map (\<lambda>d. directory_entry base_indent d @
                projr (generate_nested_list sep fs root_path (current_path @ [d]) (base_indent + 1)))
              (fst (classify fs current_path (sort names)))))"
    by blast
  then show ?thesis
    by (simp add: generate_nested_list_listed [OF assms] classify_markdown_files_plain
        classify_directories)
qed

text \<open>
  Claim C1. A directory that lists successfully is rendered as the bullet lines of its
  Markdown files (the indentation, \<open>* [\<close>, the name without its last three characters,
  \<open>](\<close>, the link, \<open>)\<close> and a line feed), followed by one block for each of its
  directories: the directory's own bullet (the indentation, \<open>* \<close>, the name and a line
  feed) and, below it, the rendering of that directory one level deeper. The files are
  exactly the regular files of the listing whose name ends with \<open>.md\<close> and is not
  \<open>index.md\<close>, the directories exactly the directories of the listing that are not ignored;
  each is there once, and both groups are in the sorted order of the listing.
\<close>

lemma indentation_replicate: "indentation base_indent = replicate (4 * base_indent) (CHR '' '')"
proof (induction base_indent)
  case 0
  show ?case by (simp add: indentation_def)
next
  case (Suc n)
  have "replicate (4 * Suc n) (CHR '' '') = ''    '' @ replicate (4 * n) (CHR '' '')"
    by (simp add: replicate_add [symmetric] numeral_eq_Suc)
  with Suc show ?case by (simp add: indentation_def)
qed

lemma file_entry_text:
  "file_entry sep root_path current_path base_indent md_file =
     replicate (4 * base_indent) (CHR '' '') @ ''* ['' @ take (length md_file - 3) md_file @
     '']('' @ file_link sep root_path current_path md_file @ '')'' @ [CHR 0x0A]"
  by (simp add: file_entry_def indentation_replicate display_name_def newline_def)

lemma file_entry_fun:
  "file_entry sep root_path current_path base_indent =
     (\<lambda>md_file. replicate (4 * base_indent) (CHR '' '') @ ''* ['' @
        take (length md_file - 3) md_file @ '']('' @
        file_link sep root_path current_path md_file @ '')'' @ [CHR 0x0A])"
  by (rule ext) (simp add: file_entry_text)

lemma directory_entry_text:
  "directory_entry base_indent directory =
     replicate (4 * base_indent) (CHR '' '') @ ''* '' @ directory @ [CHR 0x0A]"
  by (simp add: directory_entry_def indentation_replicate newline_def)

theorem level_files_then_directories:
  assumes "listdir fs current_path = Inr names" and "distinct names"
  shows "\<exists>markdown_files directories.
     generate_nested_list sep fs root_path current_path base_indent =
       Inr (concat (map (\<lambda>md_file. replicate (4 * base_indent) (CHR '' '') @ ''* ['' @
                         take (length md_file - 3) md_file @ '']('' @
                         file_link sep root_path current_path md_file @ '')'' @ [CHR 0x0A]) markdown_files) @
            concat (map (\<lambda>d. replicate (4 * base_indent) (CHR '' '') @ ''* '' @ d @ [CHR 0x0A] @
                          projr (generate_nested_list sep fs root_path (current_path @ [d])
                                   (base_indent + 1)))
                        directories))
     \<and> set markdown_files =
           {item \<in> set names. isfile fs (current_path @ [item]) \<and> endswith item ''.md'' \<and>
                               item \<noteq> ''index.md''}
     \<and> set directories =
           {item \<in> set names. isdir fs (current_path @ [item]) \<and> \<not> is_ignored_dir item}
     \<and> distinct markdown_files \<and> distinct directories
     \<and> sorted markdown_files \<and> sorted directories
     \<and> markdown_files = filter (\<lambda>item. item \<in> set markdown_files) (sort names)
     \<and> directories = filter (\<lambda>item. item \<in> set directories) (sort names)
     \<and> (\<forall>d\<in>set directories. \<exists>sub_list.
           generate_nested_list sep fs root_path (current_path @ [d]) (base_indent + 1) =
             Inr sub_list)"
proof -
  let ?mds = "filter (\<lambda>item. isfile fs (current_path @ [item]) \<and> endswith item ''.md'' \<and>
                              item \<noteq> ''index.md'') (sort names)"
  let ?dirs = "filter (\<lambda>item. isdir fs (current_path @ [item]) \<and> \<not> is_ignored_dir item)
                      (sort names)"
  have d: "distinct (sort names)" using assms(2) by simp
  have 1: "generate_nested_list sep fs root_path current_path base_indent =
       Inr (concat (map (\<lambda>md_file. replicate (4 * base_indent) (CHR '' '') @ ''* ['' @
                         take (length md_file - 3) md_file @ '']('' @
                         file_link sep root_path current_path md_file @ '')'' @ [CHR 0x0A]) ?mds) @
            concat (map (\<lambda>d. replicate (4 * base_indent) (CHR '' '') @ ''* '' @ d @ [CHR 0x0A] @
                          projr (generate_nested_list sep fs root_path (current_path @ [d])
                                   (base_indent + 1))) ?dirs))"
    using generate_nested_list_level [OF assms(1), of sep root_path base_indent]
    by (simp add: file_entry_fun directory_entry_text)
  have 2: "set ?mds = {item \<in> set names. isfile fs (current_path @ [item]) \<and>
                         endswith item ''.md'' \<and> item \<noteq> ''index.md''}"
    by auto
  have 3: "set ?dirs = {item \<in> set names. isdir fs (current_path @ [item]) \<and>
                          \<not> is_ignored_dir item}"
    by auto
  have 4: "distinct ?mds" "distinct ?dirs" using d by simp_all
  have 5: "sorted ?mds" "sorted ?dirs" by (simp_all add: sorted_wrt_filter)
  have 6: "?mds = filter (\<lambda>item. item \<in> set ?mds) (sort names)"
    by (rule filter_cong) auto
  have 7: "?dirs = filter (\<lambda>item. item \<in> set ?dirs) (sort names)"
    by (rule filter_cong) auto
  have 8: "\<forall>d\<in>set ?dirs. \<exists>sub_list.
           generate_nested_list sep fs root_path (current_path @ [d]) (base_indent + 1) =
             Inr sub_list"
    using render_total(1) by auto
  show ?thesis
    apply (rule exI [of _ ?mds])
    apply (rule exI [of _ ?dirs])
    using 1 2 3 4 5 6 7 8 by blast
qed

theorem level_files_then_directories_witness:
  "listdir demo_fs [''proj''] =
     Inr [''readme.md'', ''notes.md'', ''index.md'', ''z.md'', ''todo.txt'', ''sock'', ''.git'',
          ''locked'', ''a'', ''src'']
   \<and> distinct [''readme.md'', ''notes.md'', ''index.md'', ''z.md'', ''todo.txt'', ''sock'', ''.git'',
          ''locked'', ''a'', ''src'']
   \<and> (\<exists>markdown_files directories.
         generate_nested_list (CHR ''/'') demo_fs [''proj''] [''proj''] 0 =
           Inr (concat (map (\<lambda>md_file. replicate (4 * 0) (CHR '' '') @ ''* ['' @
                         take (length md_file - 3) md_file @ '']('' @
                         file_link (CHR ''/'') [''proj''] [''proj''] md_file @ '')'' @ [CHR 0x0A]) markdown_files) @
                concat (map (\<lambda>d. replicate (4 * 0) (CHR '' '') @ ''* '' @ d @ [CHR 0x0A] @
                          projr (generate_nested_list (CHR ''/'') demo_fs [''proj'']
                                   ([''proj''] @ [d]) (0 + 1)))
                            directories))
         \<and> set markdown_files = {''notes.md'', ''readme.md'', ''z.md''}
         \<and> set directories = {''a'', ''locked'', ''src''}
         \<and> sorted markdown_files \<and> sorted directories
         \<and> distinct markdown_files \<and> distinct directories)
   \<and> generate_nested_list (CHR ''/'') demo_fs [''proj''] [''proj''] 0 =
       Inr (''* [notes](notes.md)'' @ newline @ ''* [readme](readme.md)'' @ newline @
            ''* [z](z.md)'' @ newline @
            ''* a'' @ newline @
            ''* locked'' @ newline @ ''    * ['' @ inaccessible_label @ '']'' @ newline @
            ''* src'' @ newline @ ''    * [main](src/main.md)'' @ newline)"
proof -
  let ?names = "[''readme.md'', ''notes.md'', ''index.md'', ''z.md'', ''todo.txt'', ''sock'', ''.git'',
          ''locked'', ''a'', ''src'']"
  have h1: "listdir demo_fs [''proj''] = Inr ?names"
    by (simp add: listdir_def demo_fs_def)
  have h2: "distinct ?names" by simp
  have m: "{item \<in> set ?names. isfile demo_fs ([''proj''] @ [item]) \<and> endswith item ''.md'' \<and>
              item \<noteq> ''index.md''} = {''notes.md'', ''readme.md'', ''z.md''}"
    by (auto simp: isfile_def demo_fs_def endswith_def)
  have d: "{item \<in> set ?names. isdir demo_fs ([''proj''] @ [item]) \<and> \<not> is_ignored_dir item} =
             {''a'', ''locked'', ''src''}"
    by (auto simp: isdir_def demo_fs_def is_ignored_dir_def)
  have out: "generate_nested_list (CHR ''/'') demo_fs [''proj''] [''proj''] 0 =
       Inr (''* [notes](notes.md)'' @ newline @ ''* [readme](readme.md)'' @ newline @
            ''* [z](z.md)'' @ newline @
            ''* a'' @ newline @
            ''* locked'' @ newline @ ''    * ['' @ inaccessible_label @ '']'' @ newline @
            ''* src'' @ newline @ ''    * [main](src/main.md)'' @ newline)"
    by code_simp
  from level_files_then_directories [OF h1 h2, of "CHR ''/''" "[''proj'']" 0]
  obtain markdown_files directories where
    r: "generate_nested_list (CHR ''/'') demo_fs [''proj''] [''proj''] 0 =
           Inr (concat (map (\<lambda>md_file. replicate (4 * 0) (CHR '' '') @ ''* ['' @
                         take (length md_file - 3) md_file @ '']('' @
                         file_link (CHR ''/'') [''proj''] [''proj''] md_file @ '')'' @ [CHR 0x0A]) markdown_files) @
                concat (map (\<lambda>d. replicate (4 * 0) (CHR '' '') @ ''* '' @ d @ [CHR 0x0A] @
                          projr (generate_nested_list (CHR ''/'') demo_fs [''proj'']
                                   ([''proj''] @ [d]) (0 + 1)))
                            directories))"
    and sm: "set markdown_files = {item \<in> set ?names. isfile demo_fs ([''proj''] @ [item]) \<and>
        endswith item ''.md'' \<and> item \<noteq> ''index.md''}"
    and sd: "set directories = {item \<in> set ?names. isdir demo_fs ([''proj''] @ [item]) \<and>
        \<not> is_ignored_dir item}"
    and rest: "sorted markdown_files" "sorted directories"
      "distinct markdown_files" "distinct directories"
    by (elim exE conjE)
  from sm m have sm': "set markdown_files = {''notes.md'', ''readme.md'', ''z.md''}"
    by (rule trans)
  from sd d have sd': "set directories = {''a'', ''locked'', ''src''}"
    by (rule trans)
  have ex: "\<exists>markdown_files directories.
         generate_nested_list (CHR ''/'') demo_fs [''proj''] [''proj''] 0 =
           Inr (concat (map (\<lambda>md_file. replicate (4 * 0) (CHR '' '') @ ''* ['' @
                         take (length md_file - 3) md_file @ '']('' @
                         file_link (CHR ''/'') [''proj''] [''proj''] md_file @ '')'' @ [CHR 0x0A]) markdown_files) @
                concat (map (\<lambda>d. replicate (4 * 0) (CHR '' '') @ ''* '' @ d @ [CHR 0x0A] @
                          projr (generate_nested_list (CHR ''/'') demo_fs [''proj'']
                                   ([''proj''] @ [d]) (0 + 1)))
                            directories))
         \<and> set markdown_files = {''notes.md'', ''readme.md'', ''z.md''}
         \<and> set directories = {''a'', ''locked'', ''src''}
         \<and> sorted markdown_files \<and> sorted directories
         \<and> distinct markdown_files \<and> distinct directories"
    by (intro exI [of _ markdown_files] exI [of _ directories] conjI r sm' sd' rest)
  from h1 h2 ex out show ?thesis by (intro conjI)
qed

text \<open>
  Claim C7. At every level, whatever the directory and the depth, the files the renderer
  lists leave out the name \<open>index.md\<close>, and the names it lists as directories are all
  directories: a file called \<open>index.md\<close> gets no bullet of either kind.
\<close>

theorem index_md_is_never_listed:
  assumes "listdir fs current_path = Inr names"
  shows "''index.md'' \<notin> set (snd (classify fs current_path (sort names)))
     \<and> (\<forall>d\<in>set (fst (classify fs current_path (sort names))). isdir fs (current_path @ [d]))
     \<and> generate_nested_list sep fs root_path current_path base_indent =
         Inr (concat (map (file_entry sep root_path current_path base_indent)
                          (snd (classify fs current_path (sort names)))) @
              concat (map (\<lambda>d. directory_entry base_indent d @
                            projr (generate_nested_list sep fs root_path (current_path @ [d])
                                     (base_indent + 1)))
                          (fst (classify fs current_path (sort names)))))"
  using generate_nested_list_level [OF assms, of sep root_path base_indent]
  by (simp add: classify_markdown_files_plain classify_directories)

theorem index_md_is_never_listed_witness:
  "listdir demo_fs [''proj''] =
     Inr [''readme.md'', ''notes.md'', ''index.md'', ''z.md'', ''todo.txt'', ''sock'', ''.git'',
          ''locked'', ''a'', ''src'']
   \<and> isfile demo_fs [''proj'', ''index.md'']
   \<and> ''index.md'' \<notin> set (snd (classify demo_fs [''proj'']
         (sort [''readme.md'', ''notes.md'', ''index.md'', ''z.md'', ''todo.txt'', ''sock'', ''.git'',
          ''locked'', ''a'', ''src''])))
   \<and> snd (classify demo_fs [''proj'']
         (sort [''readme.md'', ''notes.md'', ''index.md'', ''z.md'', ''todo.txt'', ''sock'', ''.git'',
          ''locked'', ''a'', ''src''])) = [''notes.md'', ''readme.md'', ''z.md'']"
proof -
  let ?names = "[''readme.md'', ''notes.md'', ''index.md'', ''z.md'', ''todo.txt'', ''sock'', ''.git'',
          ''locked'', ''a'', ''src'']"
  have h: "listdir demo_fs [''proj''] = Inr ?names"
    by (simp add: listdir_def demo_fs_def)
  have f: "isfile demo_fs [''proj'', ''index.md'']"
    by (simp add: isfile_def demo_fs_def)
  have c: "snd (classify demo_fs [''proj''] (sort ?names)) = [''notes.md'', ''readme.md'', ''z.md'']"
    by code_simp
  from index_md_is_never_listed [OF h, of "CHR ''/''" "[''proj'']" 0]
  have "''index.md'' \<notin> set (snd (classify demo_fs [''proj''] (sort ?names)))" by blast
  with h f c show ?thesis by blast
qed

lemma replace_char_no_backslash: "backslash \<notin> set (replace_char backslash (CHR ''/'') s)"
  by (auto simp: replace_char_def backslash_def)

lemma replace_char_append:
  "replace_char a b (s @ t) = replace_char a b s @ replace_char a b t"
  by (simp add: replace_char_def)

lemma replace_char_Cons:
  "replace_char a b (c # s) = (if c = a then b else c) # replace_char a b s"
  by (simp add: replace_char_def)

lemma replace_char_clean: "a \<notin> set s \<Longrightarrow> replace_char a b s = s"
  by (induction s) (auto simp: replace_char_def)

lemma replace_char_join:
  assumes "sep = CHR ''/'' \<or> sep = backslash" and "\<forall>c\<in>set rel. backslash \<notin> set c"
  shows "replace_char backslash (CHR ''/'') (join_with [sep] rel) = join_with ''/'' rel"
  using assms(2)
proof (induction rel)
  case Nil
  then show ?case by (simp add: replace_char_def)
next
  case (Cons a as)
  show ?case
  proof (cases as)
    case Nil
    with Cons.prems show ?thesis by (simp add: replace_char_clean)
  next
    case (Cons b bs)
    with Cons.IH Cons.prems assms(1) show ?thesis
      by (auto simp: replace_char_append replace_char_clean replace_char_Cons backslash_def)
  qed
qed














section \<open>Writing\<close>

text \<open>
  \<open>put\<close> stores a node at a path whose parent is a directory: it replaces the entry of
  that name where the directory has one (the listing keeps its order) and adds a new
  entry at the end of the listing otherwise.
\<close>

fun put :: "node \<Rightarrow> path \<Rightarrow> node \<Rightarrow> node" where
  "put t [] new = new"
| "put (Dir r es) (x # xs) new =
     (case map_of es x of
        None \<Rightarrow> if xs = [] then Dir r (es @ [(x, new)]) else Dir r es
      | Some t \<Rightarrow> Dir r (AList.update x (put t xs new) es))"
| "put t (x # xs) new = t"

text \<open>
  \<open>os.makedirs\<close> creates the directories of a path that are missing. It fails where a
  component is not a directory and where the whole path is there already; it fails
  before it has created anything.
\<close>

fun makedirs :: "node \<Rightarrow> path \<Rightarrow> error + node" where
  "makedirs (Dir r es) (x # xs) =
     (case map_of es x of
        None \<Rightarrow> Inr (Dir r (es @ [(x, foldr (\<lambda>y t. Dir True [(y, t)]) xs (Dir True []))]))
      | Some t \<Rightarrow>
          (case makedirs t xs of
             Inl e \<Rightarrow> Inl e
           | Inr t' \<Rightarrow> Inr (Dir r (AList.update x t' es))))"
| "makedirs t [] = Inl FileExistsError"
| "makedirs t (x # xs) = Inl NotADirectoryError"

text \<open>
  \<open>open(output_file, 'w')\<close> creates the file, or empties the regular file that is there.
  It raises \<open>IsADirectoryError\<close> on a directory and an \<open>OSError\<close> on a special file.
\<close>

definition open_for_writing :: "node \<Rightarrow> path \<Rightarrow> error + node" where
  "open_for_writing fs p =
     (case lookup fs (dirname p) of
        None \<Rightarrow> Inl FileNotFoundError
      | Some (Dir r es) \<Rightarrow>
          (case lookup fs p of
             None \<Rightarrow> Inr (put fs p (RegFile []))
           | Some (RegFile c) \<Rightarrow> Inr (put fs p (RegFile []))
           | Some Special \<Rightarrow> Inl OSError
           | Some (Dir r' es') \<Rightarrow> Inl IsADirectoryError)
      | Some _ \<Rightarrow> Inl NotADirectoryError)"

section \<open>The index file writer\<close>

text \<open>
  The result is the file system after the call and the exception that left the call, if
  any. The output file is opened before the list is rendered, so the renderer sees it;
  what has been written when an exception leaves the \<open>with\<close> block stays in the file.
  Paths are absolute, so \<open>output_dir\<close> is never the empty string.
\<close>

definition generate_markdown_index :: "char \<Rightarrow> node \<Rightarrow> path \<Rightarrow> path \<Rightarrow> node \<times> error option" where
  "generate_markdown_index sep fs root_path0 output_file =
     (let root_path = normpath root_path0;
          root_name = basename root_path;
          output_dir = dirname output_file
      in case (if \<not> path_exists fs output_dir then makedirs fs output_dir else Inr fs) of
           Inl e \<Rightarrow> (fs, Some e)
         | Inr fs1 \<Rightarrow>
             (case open_for_writing fs1 output_file of
                Inl e \<Rightarrow> (fs1, Some e)
              | Inr fs2 \<Rightarrow>
                  (let title = ''# '' @ root_name @ newline @ newline;
                       subtitle = ''## '' @ toc_title @ newline @ newline
                   in case generate_nested_list sep fs2 root_path root_path 0 of
                        Inl e \<Rightarrow> (put fs2 output_file (RegFile (title @ subtitle)), Some e)
                      | Inr nested_list \<Rightarrow>
                          (put fs2 output_file
                             (RegFile (title @ subtitle @
                                (if strip nested_list \<noteq> [] then nested_list
                                 else ''* '' @ no_content_label @ newline))),
                           None))))"

section \<open>The driver\<close>

datatype message =
  CannotAccessWorkingDirectory
  | NoSubdirectories
  | Generated path
  | Failed string error

datatype outcome = Returned | SysExit nat

fun index_each :: "char \<Rightarrow> node \<Rightarrow> path \<Rightarrow> string list \<Rightarrow> node \<times> message list" where
  "index_each sep fs current_dir [] = (fs, [])"
| "index_each sep fs current_dir (directory # rest) =
     (let dir_path = current_dir @ [directory];
          output_file = dir_path @ [''index.md''];
          (fs1, raised) = generate_markdown_index sep fs dir_path output_file;
          line = (case raised of None \<Rightarrow> Generated output_file | Some e \<Rightarrow> Failed directory e);
          (fs2, printed) = index_each sep fs1 current_dir rest
      in (fs2, line # printed))"

definition main :: "char \<Rightarrow> node \<Rightarrow> path \<Rightarrow> error + node \<times> message list \<times> outcome" where
  "main sep fs current_dir =
     (case listdir fs current_dir of
        Inl e \<Rightarrow>
          if e = PermissionError then Inr (fs, [CannotAccessWorkingDirectory], SysExit 1)
          else Inl e
      | Inr items \<Rightarrow>
          (let directories =
                 filter (\<lambda>item. isdir fs (current_dir @ [item]) \<and> \<not> is_ignored_dir item) items
           in if directories = [] then Inr (fs, [NoSubdirectories], Returned)
              else (let (fs', printed) = index_each sep fs current_dir directories
                    in Inr (fs', printed, Returned))))"

definition exit_status :: "outcome \<Rightarrow> nat" where
  "exit_status out = (case out of Returned \<Rightarrow> 0 | SysExit n \<Rightarrow> n)"

section \<open>Properties of the driver\<close>

definition reports :: "path \<Rightarrow> string \<Rightarrow> message \<Rightarrow> bool" where
  \<comment> \<open>the line is the success line or a failure line of this subdirectory\<close>
  "reports current_dir directory line \<longleftrightarrow>
     line = Generated (current_dir @ [directory, ''index.md'']) \<or> (\<exists>e. line = Failed directory e)"

lemma index_each_reports:
  "list_all2 (reports current_dir) directories (snd (index_each sep fs current_dir directories))"
proof (induction directories arbitrary: fs)
  case Nil
  show ?case by simp
next
  case (Cons directory rest)
  obtain fs1 raised where g:
    "generate_markdown_index sep fs (current_dir @ [directory])
       ((current_dir @ [directory]) @ [''index.md'']) = (fs1, raised)"
    by (cases "generate_markdown_index sep fs (current_dir @ [directory])
       ((current_dir @ [directory]) @ [''index.md''])")
  obtain fs2 printed where r: "index_each sep fs1 current_dir rest = (fs2, printed)"
    by (cases "index_each sep fs1 current_dir rest")
  from Cons [of fs1] r have "list_all2 (reports current_dir) rest printed" by simp
  moreover have "reports current_dir directory
      (case raised of None \<Rightarrow> Generated ((current_dir @ [directory]) @ [''index.md''])
                    | Some e \<Rightarrow> Failed directory e)"
    by (cases raised) (simp_all add: reports_def)
  ultimately show ?case using g r by (simp add: Let_def)
qed

definition driver_fs :: node where
  "driver_fs =
     Dir True
       [(''bad'', Dir True [(''index.md'', Dir True []), (''n.md'', RegFile [])]),
        (''.git'', Dir True [(''c.md'', RegFile [])]),
        (''good'', Dir True [(''n.md'', RegFile [])]),
        (''top.md'', RegFile [])]"

definition process_status :: "error + node \<times> message list \<times> outcome \<Rightarrow> nat" where
  \<comment> \<open>an exception that leaves \<open>main\<close> ends the process with status 1\<close>
  "process_status run = (case run of Inl e \<Rightarrow> 1 | Inr (fs, printed, out) \<Rightarrow> exit_status out)"

lemma index_each_state:
  "fst (index_each sep fs current_dir directories) = foldl (\<lambda>f d. fst (generate_markdown_index sep f (current_dir @ [d])
                                  (current_dir @ [d, ''index.md'']))) fs directories"
proof (induction directories arbitrary: fs)
  case Nil
  show ?case by simp
next
  case (Cons d rest)
  obtain fs1 raised where g:
    "generate_markdown_index sep fs (current_dir @ [d]) (current_dir @ [d, ''index.md'']) =
       (fs1, raised)"
    by (cases "generate_markdown_index sep fs (current_dir @ [d]) (current_dir @ [d, ''index.md''])")
  obtain fs2 printed where r: "index_each sep fs1 current_dir rest = (fs2, printed)"
    by (cases "index_each sep fs1 current_dir rest")
  from Cons [of fs1] g r show ?case by (simp add: Let_def)
qed

lemma index_each_lines:
  "length (snd (index_each sep fs current_dir directories)) = length directories
   \<and> (\<forall>k<length directories.
         snd (index_each sep fs current_dir directories) ! k = (case snd (generate_markdown_index sep
                              (foldl (\<lambda>f d. fst (generate_markdown_index sep f (current_dir @ [d])
                                  (current_dir @ [d, ''index.md'']))) fs (take k directories))
                              (current_dir @ [directories ! k])
                              (current_dir @ [directories ! k, ''index.md''])) of
                     None \<Rightarrow> Generated (current_dir @ [directories ! k, ''index.md''])
                   | Some e \<Rightarrow> Failed (directories ! k) e))"
proof (induction directories arbitrary: fs)
  case Nil
  show ?case by simp
next
  case (Cons d rest)
  obtain fs1 raised where g:
    "generate_markdown_index sep fs (current_dir @ [d]) (current_dir @ [d, ''index.md'']) =
       (fs1, raised)"
    by (cases "generate_markdown_index sep fs (current_dir @ [d]) (current_dir @ [d, ''index.md''])")
  obtain fs2 printed where r: "index_each sep fs1 current_dir rest = (fs2, printed)"
    by (cases "index_each sep fs1 current_dir rest")
  from Cons [of fs1] r have len: "length printed = length rest" by simp
  show ?case
  proof (intro conjI allI impI)
    from len g r show "length (snd (index_each sep fs current_dir (d # rest))) = length (d # rest)"
      by (simp add: Let_def)
  next
    fix k
    assume k: "k < length (d # rest)"
    show "snd (index_each sep fs current_dir (d # rest)) ! k =
      (case snd (generate_markdown_index sep
                              (foldl (\<lambda>f d. fst (generate_markdown_index sep f (current_dir @ [d])
                                  (current_dir @ [d, ''index.md'']))) fs (take k (d # rest)))
                              (current_dir @ [(d # rest) ! k])
                              (current_dir @ [(d # rest) ! k, ''index.md''])) of
                     None \<Rightarrow> Generated (current_dir @ [(d # rest) ! k, ''index.md''])
                   | Some e \<Rightarrow> Failed ((d # rest) ! k) e)"
    proof (cases k)
      case 0
      with g r show ?thesis by (simp add: Let_def split: option.splits)
    next
      case (Suc j)
      with k have "j < length rest" by simp
      with Cons [of fs1] r Suc g show ?thesis by (simp add: Let_def split: option.splits)
    qed
  qed
qed

text \<open>
  Claim C5. The working directory is a directory. If listing it raises a permission error,
  the driver prints the error line and exits with status 1, and nothing is written.
  Otherwise it returns normally, with status 0, whatever happens in the subdirectories. It
  runs the index file writer on every subdirectory in turn, each on the file system the
  earlier ones have left, whether they succeeded or raised: the file system at the end is
  the one after all these calls, and the line printed for a subdirectory is its success
  line, or its failure line with the exception its own call raised.
\<close>

theorem driver_contains_failures:
  assumes "isdir fs current_dir"
  shows "\<exists>fs' printed out.
     main sep fs current_dir = Inr (fs', printed, out)
     \<and> (process_status (main sep fs current_dir) \<noteq> 0 \<longleftrightarrow>
          listdir fs current_dir = Inl PermissionError)
     \<and> (listdir fs current_dir = Inl PermissionError \<longrightarrow>
          fs' = fs \<and> printed = [CannotAccessWorkingDirectory] \<and> out = SysExit 1)
     \<and> (\<forall>items directories. listdir fs current_dir = Inr items \<longrightarrow>
          directories = filter (\<lambda>item. isdir fs (current_dir @ [item]) \<and>
                                         \<not> is_ignored_dir item) items \<longrightarrow>
          out = Returned
          \<and> (directories = [] \<longrightarrow> printed = [NoSubdirectories] \<and> fs' = fs)
          \<and> (directories \<noteq> [] \<longrightarrow>
               fs' = foldl (\<lambda>f d. fst (generate_markdown_index sep f (current_dir @ [d])
                                  (current_dir @ [d, ''index.md'']))) fs directories
               \<and> length printed = length directories
               \<and> (\<forall>k<length directories. printed ! k = (case snd (generate_markdown_index sep
                              (foldl (\<lambda>f d. fst (generate_markdown_index sep f (current_dir @ [d])
                                  (current_dir @ [d, ''index.md'']))) fs (take k directories))
                              (current_dir @ [directories ! k])
                              (current_dir @ [directories ! k, ''index.md''])) of
                     None \<Rightarrow> Generated (current_dir @ [directories ! k, ''index.md''])
                   | Some e \<Rightarrow> Failed (directories ! k) e))))"
proof -
  from isdir_listdir [OF assms] show ?thesis
  proof
    assume p: "listdir fs current_dir = Inl PermissionError"
    then show ?thesis by (simp add: main_def process_status_def exit_status_def)
  next
    assume "\<exists>names. listdir fs current_dir = Inr names"
    then obtain items where i: "listdir fs current_dir = Inr items" ..
    let ?ds = "filter (\<lambda>item. isdir fs (current_dir @ [item]) \<and> \<not> is_ignored_dir item) items"
    show ?thesis
    proof (cases "?ds = []")
      case True
      with i show ?thesis by (simp add: main_def process_status_def exit_status_def)
    next
      case False
      obtain fs' printed where r: "index_each sep fs current_dir ?ds = (fs', printed)"
        by (cases "index_each sep fs current_dir ?ds")
      from index_each_state [of sep fs current_dir ?ds] r
      have 1: "fs' = foldl (\<lambda>f d. fst (generate_markdown_index sep f (current_dir @ [d])
                                  (current_dir @ [d, ''index.md'']))) fs ?ds" by simp
      from index_each_lines [of sep fs current_dir ?ds] r
      have 2: "length printed = length ?ds"
        and 3: "\<forall>k<length ?ds. printed ! k =
           (case snd (generate_markdown_index sep
                              (foldl (\<lambda>f d. fst (generate_markdown_index sep f (current_dir @ [d])
                                  (current_dir @ [d, ''index.md'']))) fs (take k ?ds))
                              (current_dir @ [?ds ! k])
                              (current_dir @ [?ds ! k, ''index.md''])) of
                     None \<Rightarrow> Generated (current_dir @ [?ds ! k, ''index.md''])
                   | Some e \<Rightarrow> Failed (?ds ! k) e)"
        by simp_all
      have m: "main sep fs current_dir = Inr (fs', printed, Returned)"
        using i False r by (simp add: main_def Let_def)
      have s: "process_status (main sep fs current_dir) = 0"
        by (simp add: m process_status_def exit_status_def)
      show ?thesis
        apply (rule exI [of _ fs'])
        apply (rule exI [of _ printed])
        apply (rule exI [of _ Returned])
        using m s i False 1 2 3 by simp
    qed
  qed
qed

definition three_fs :: node where
  "three_fs =
     Dir True
       [(''bad'', Dir True [(''index.md'', Dir True []), (''n.md'', RegFile [])]),
        (''g1'', Dir True [(''a.md'', RegFile [])]),
        (''g2'', Dir True [])]"

theorem driver_contains_failures_witness:
  "isdir three_fs []
   \<and> process_status (main (CHR ''/'') three_fs []) = 0
   \<and> main (CHR ''/'') three_fs [] =
       Inr (Dir True
              [(''bad'', Dir True [(''index.md'', Dir True []), (''n.md'', RegFile [])]),
               (''g1'', Dir True
                  [(''a.md'', RegFile []),
                   (''index.md'', RegFile (''# g1'' @ newline @ newline @ ''## '' @ toc_title @
                      newline @ newline @ ''* [a](a.md)'' @ newline))]),
               (''g2'', Dir True
                  [(''index.md'', RegFile (''# g2'' @ newline @ newline @ ''## '' @ toc_title @
                      newline @ newline @ ''* '' @ no_content_label @ newline))])],
            [Failed ''bad'' IsADirectoryError, Generated [''g1'', ''index.md''],
             Generated [''g2'', ''index.md'']],
            Returned)
   \<and> isdir (Dir False []) []
   \<and> process_status (main (CHR ''/'') (Dir False []) []) \<noteq> 0
   \<and> main (CHR ''/'') (Dir False []) [] =
       Inr (Dir False [], [CannotAccessWorkingDirectory], SysExit 1)"
proof -
  have h: "isdir three_fs []" by (simp add: isdir_def three_fs_def)
  have l: "listdir three_fs [] \<noteq> Inl PermissionError"
    by (simp add: listdir_def three_fs_def)
  from driver_contains_failures [OF h, of "CHR ''/''"] l
  have s: "process_status (main (CHR ''/'') three_fs []) = 0" by blast
  have m: "main (CHR ''/'') three_fs [] =
       Inr (Dir True
              [(''bad'', Dir True [(''index.md'', Dir True []), (''n.md'', RegFile [])]),
               (''g1'', Dir True
                  [(''a.md'', RegFile []),
                   (''index.md'', RegFile (''# g1'' @ newline @ newline @ ''## '' @ toc_title @
                      newline @ newline @ ''* [a](a.md)'' @ newline))]),
               (''g2'', Dir True
                  [(''index.md'', RegFile (''# g2'' @ newline @ newline @ ''## '' @ toc_title @
                      newline @ newline @ ''* '' @ no_content_label @ newline))])],
            [Failed ''bad'' IsADirectoryError, Generated [''g1'', ''index.md''],
             Generated [''g2'', ''index.md'']],
            Returned)"
    by code_simp
  have h': "isdir (Dir False []) []" by (simp add: isdir_def)
  have l': "listdir (Dir False []) [] = Inl PermissionError" by (simp add: listdir_def)
  from driver_contains_failures [OF h', of "CHR ''/''"] l'
  have s': "process_status (main (CHR ''/'') (Dir False []) []) \<noteq> 0" by blast
  have m': "main (CHR ''/'') (Dir False []) [] =
       Inr (Dir False [], [CannotAccessWorkingDirectory], SysExit 1)"
    by (simp add: main_def l')
  from h s m h' s' m' show ?thesis by (intro conjI)
qed

subsection \<open>What a write leaves alone\<close>

lemma lookup_put_other:
  "a \<noteq> b \<Longrightarrow> lookup (put fs (p @ a # r) new) (p @ b # q) = lookup fs (p @ b # q)"
proof (induction p arbitrary: fs)
  case Nil
  then show ?case
    by (cases fs) (auto simp: update_conv' split: option.splits)
next
  case (Cons c p)
  then show ?case
    by (cases fs) (auto simp: update_conv' split: option.splits)
qed

lemma lookup_fresh_other:
  "a \<noteq> b \<Longrightarrow>
   lookup (foldr (\<lambda>y t. Dir True [(y, t)]) p (Dir True [(a, t)])) (p @ b # q) = None"
  by (induction p) simp_all

lemma lookup_makedirs_other:
  "makedirs fs (p @ a # r) = Inr fs' \<Longrightarrow> a \<noteq> b \<Longrightarrow>
   lookup fs' (p @ b # q) = lookup fs (p @ b # q)"
proof (induction p arbitrary: fs fs')
  case Nil
  then show ?case
    by (cases fs) (auto simp: update_conv' split: option.splits sum.splits)
next
  case (Cons c p)
  then show ?case
    by (cases fs) (auto simp: update_conv' lookup_fresh_other split: option.splits sum.splits)
qed

lemma generate_markdown_index_other:
  assumes "a \<noteq> b" and "r \<noteq> []"
  shows "lookup (fst (generate_markdown_index sep fs root_path (p @ a # r))) (p @ b # q) =
         lookup fs (p @ b # q)"
proof -
  let ?out = "p @ a # r"
  from assms(2) have d: "dirname ?out = p @ a # butlast r" by (simp add: dirname_def butlast_append)
  let ?pre = "if \<not> path_exists fs (dirname ?out) then makedirs fs (dirname ?out) else Inr fs"
  show ?thesis
  proof (cases ?pre)
    case (Inl e)
    then show ?thesis by (simp add: generate_markdown_index_def Let_def)
  next
    case (Inr fs1)
    then have 1: "lookup fs1 (p @ b # q) = lookup fs (p @ b # q)"
      using lookup_makedirs_other [of fs p a "butlast r" fs1 b q] assms(1) d
      by (auto split: if_splits)
    show ?thesis
    proof (cases "open_for_writing fs1 ?out")
      case (Inl e)
      with Inr 1 show ?thesis by (simp add: generate_markdown_index_def Let_def)
    next
      case (Inr fs2)
      then have "fs2 = put fs1 ?out (RegFile [])"
        by (auto simp: open_for_writing_def split: option.splits node.splits)
      with assms(1) 1 have 2: "\<And>new. lookup (put fs2 ?out new) (p @ b # q) = lookup fs (p @ b # q)"
        by (simp add: lookup_put_other)
      from \<open>?pre = Inr fs1\<close> Inr 2 show ?thesis
        by (simp add: generate_markdown_index_def Let_def split: sum.splits)
    qed
  qed
qed

lemma index_each_other:
  "b \<notin> set directories \<Longrightarrow>
   lookup (fst (index_each sep fs current_dir directories)) (current_dir @ b # q) =
   lookup fs (current_dir @ b # q)"
proof (induction directories arbitrary: fs)
  case Nil
  show ?case by simp
next
  case (Cons directory rest)
  then have n: "directory \<noteq> b" and r: "b \<notin> set rest" by auto
  let ?g = "generate_markdown_index sep fs (current_dir @ [directory])
              ((current_dir @ [directory]) @ [''index.md''])"
  have "lookup (fst ?g) (current_dir @ b # q) = lookup fs (current_dir @ b # q)"
    using generate_markdown_index_other [OF n, of "[''index.md'']" sep fs
        "current_dir @ [directory]" current_dir q]
    by simp
  moreover obtain fs1 raised where g: "?g = (fs1, raised)" by (cases ?g)
  moreover obtain fs2 printed where "index_each sep fs1 current_dir rest = (fs2, printed)"
    by (cases "index_each sep fs1 current_dir rest")
  ultimately show ?case using Cons.IH [OF r, of fs1] by (simp add: Let_def)
qed

lemma reports_same: "reports current_dir d line \<Longrightarrow> reports current_dir d' line \<Longrightarrow> d = d'"
  by (auto simp: reports_def)

lemma reported_directory:
  "list_all2 (reports current_dir) directories printed \<Longrightarrow> line \<in> set printed \<Longrightarrow>
   \<exists>d\<in>set directories. reports current_dir d line"
  by (induction rule: list_all2_induct) auto

text \<open>
  Claim C8. At every level the directories the renderer lists contain no ignored name, and
  the fragment has one block for each of them (its bullet line and the rendering of that
  directory) and nothing else after the files; the loop descends into the directories it
  is given and into no other. The driver prints no line for a subdirectory with an ignored
  name and leaves everything below it as it was: it writes no index there.
\<close>

theorem ignored_directories_are_skipped:
  "(\<forall>names. listdir fs current_path = Inr names \<longrightarrow>
      (\<forall>d\<in>set (fst (classify fs current_path (sort names))). \<not> is_ignored_dir d)
      \<and> (\<exists>files_text. generate_nested_list sep fs root_path current_path base_indent =
          Inr (files_text @
               concat (map (\<lambda>d. replicate (4 * base_indent) (CHR '' '') @ ''* '' @ d @ [CHR 0x0A] @
                             projr (generate_nested_list sep fs root_path (current_path @ [d])
                                      (base_indent + 1)))
                           (fst (classify fs current_path (sort names))))))
      \<and> directories_loop sep fs root_path current_path base_indent [] = Inr []
      \<and> (\<forall>d rest. directories_loop sep fs root_path current_path base_indent (d # rest) =
            (case generate_nested_list sep fs root_path (current_path @ [d]) (base_indent + 1) of
               Inl e \<Rightarrow> Inl e
             | Inr sub_list \<Rightarrow>
                 (case directories_loop sep fs root_path current_path base_indent rest of
                    Inl e \<Rightarrow> Inl e
                  | Inr listed \<Rightarrow>
                      Inr (replicate (4 * base_indent) (CHR '' '') @ ''* '' @ d @ [CHR 0x0A] @
                           sub_list @ listed)))))
   \<and> (\<forall>fs' printed out. main sep fs current_dir = Inr (fs', printed, out) \<longrightarrow>
        (\<forall>d. is_ignored_dir d \<longrightarrow>
           (\<forall>line\<in>set printed. \<not> reports current_dir d line)
           \<and> (\<forall>q. lookup fs' (current_dir @ d # q) = lookup fs (current_dir @ d # q))))"
proof -
  have level: "(\<forall>d\<in>set (fst (classify fs current_path (sort names))). \<not> is_ignored_dir d)
      \<and> (\<exists>files_text. generate_nested_list sep fs root_path current_path base_indent =
          Inr (files_text @
               concat (map (\<lambda>d. replicate (4 * base_indent) (CHR '' '') @ ''* '' @ d @ [CHR 0x0A] @
                             projr (generate_nested_list sep fs root_path (current_path @ [d])
                                      (base_indent + 1)))
                           (fst (classify fs current_path (sort names))))))
      \<and> directories_loop sep fs root_path current_path base_indent [] = Inr []
      \<and> (\<forall>d rest. directories_loop sep fs root_path current_path base_indent (d # rest) =
            (case generate_nested_list sep fs root_path (current_path @ [d]) (base_indent + 1) of
               Inl e \<Rightarrow> Inl e
             | Inr sub_list \<Rightarrow>
                 (case directories_loop sep fs root_path current_path base_indent rest of
                    Inl e \<Rightarrow> Inl e
                  | Inr listed \<Rightarrow>
                      Inr (replicate (4 * base_indent) (CHR '' '') @ ''* '' @ d @ [CHR 0x0A] @
                           sub_list @ listed))))"
    if l: "listdir fs current_path = Inr names" for names
  proof -
    have "\<exists>files_text. generate_nested_list sep fs root_path current_path base_indent =
          Inr (files_text @
               concat (map (\<lambda>d. replicate (4 * base_indent) (CHR '' '') @ ''* '' @ d @ [CHR 0x0A] @
                             projr (generate_nested_list sep fs root_path (current_path @ [d])
                                      (base_indent + 1)))
                           (fst (classify fs current_path (sort names)))))"
      using generate_nested_list_level [OF l, of sep root_path base_indent]
      by (simp add: classify_directories directory_entry_text)
    then show ?thesis
      by (simp add: classify_directories directory_entry_text split: sum.splits)
  qed
  have driver: "(\<forall>line\<in>set printed. \<not> reports current_dir d line)
           \<and> (\<forall>q. lookup fs' (current_dir @ d # q) = lookup fs (current_dir @ d # q))"
    if m: "main sep fs current_dir = Inr (fs', printed, out)" and i: "is_ignored_dir d"
    for fs' printed out d
  proof
    show "\<forall>line\<in>set printed. \<not> reports current_dir d line"
    proof
      fix line
      assume line: "line \<in> set printed"
      show "\<not> reports current_dir d line"
      proof (cases "listdir fs current_dir")
        case (Inl e)
        with m line show ?thesis by (auto simp: main_def reports_def split: if_splits)
      next
        case (Inr items)
        let ?ds = "filter (\<lambda>item. isdir fs (current_dir @ [item]) \<and> \<not> is_ignored_dir item) items"
        show ?thesis
        proof (cases "?ds = []")
          case True
          with m Inr line show ?thesis by (auto simp: main_def reports_def)
        next
          case False
          with m Inr have "printed = snd (index_each sep fs current_dir ?ds)"
            by (auto simp: main_def Let_def split: prod.splits)
          with index_each_reports [of current_dir ?ds sep fs]
          have "list_all2 (reports current_dir) ?ds printed" by simp
          from reported_directory [OF this line] obtain d' where
            d': "d' \<in> set ?ds" "reports current_dir d' line" by blast
          then have "\<not> is_ignored_dir d'" by simp
          with i d'(2) reports_same show ?thesis by blast
        qed
      qed
    qed
    show "\<forall>q. lookup fs' (current_dir @ d # q) = lookup fs (current_dir @ d # q)"
    proof (cases "listdir fs current_dir")
      case (Inl e)
      with m show ?thesis by (auto simp: main_def split: if_splits)
    next
      case (Inr items)
      let ?ds = "filter (\<lambda>item. isdir fs (current_dir @ [item]) \<and> \<not> is_ignored_dir item) items"
      show ?thesis
      proof (cases "?ds = []")
        case True
        with m Inr show ?thesis by (auto simp: main_def)
      next
        case False
        with m Inr have f: "fs' = fst (index_each sep fs current_dir ?ds)"
          by (auto simp: main_def Let_def split: prod.splits)
        from i have "d \<notin> set ?ds" by simp
        from index_each_other [OF this] f show ?thesis by simp
      qed
    qed
  qed
  from level driver show ?thesis by blast
qed

theorem ignored_directories_are_skipped_witness:
  "listdir demo_fs [''proj''] =
     Inr [''readme.md'', ''notes.md'', ''index.md'', ''z.md'', ''todo.txt'', ''sock'', ''.git'',
          ''locked'', ''a'', ''src'']
   \<and> isdir demo_fs [''proj'', ''.git''] \<and> is_ignored_dir ''.git''
   \<and> ''.git'' \<notin> set (fst (classify demo_fs [''proj'']
         (sort [''readme.md'', ''notes.md'', ''index.md'', ''z.md'', ''todo.txt'', ''sock'', ''.git'',
          ''locked'', ''a'', ''src''])))
   \<and> isdir demo_fs [''__pycache__''] \<and> is_ignored_dir ''__pycache__''
   \<and> main (CHR ''/'') demo_fs [] = Inr (projr (main (CHR ''/'') demo_fs []))
   \<and> fst (snd (projr (main (CHR ''/'') demo_fs []))) =
       [Generated [''proj'', ''index.md''], Generated [''empty'', ''index.md'']]
   \<and> lookup (fst (projr (main (CHR ''/'') demo_fs []))) [''__pycache__'', ''index.md''] = None
   \<and> lookup (fst (projr (main (CHR ''/'') demo_fs []))) [''__pycache__'', ''c.md''] =
       Some (RegFile [])"
proof -
  let ?names = "[''readme.md'', ''notes.md'', ''index.md'', ''z.md'', ''todo.txt'', ''sock'', ''.git'',
          ''locked'', ''a'', ''src'']"
  have h: "listdir demo_fs [''proj''] = Inr ?names"
    by (simp add: listdir_def demo_fs_def)
  have g: "isdir demo_fs [''proj'', ''.git'']" "is_ignored_dir ''.git''"
    "isdir demo_fs [''__pycache__'']" "is_ignored_dir ''__pycache__''"
    by (simp_all add: isdir_def demo_fs_def is_ignored_dir_def)
  note t = ignored_directories_are_skipped [of demo_fs "[''proj'']" "CHR ''/''" "[''proj'']" 0 "[]"]
  from t h have "\<forall>d\<in>set (fst (classify demo_fs [''proj''] (sort ?names))). \<not> is_ignored_dir d"
    by blast
  with g(2) have 1: "''.git'' \<notin> set (fst (classify demo_fs [''proj''] (sort ?names)))"
    by blast
  have "\<not> isl (main (CHR ''/'') demo_fs [])" by code_simp
  then have m: "main (CHR ''/'') demo_fs [] = Inr (projr (main (CHR ''/'') demo_fs []))"
    by (cases "main (CHR ''/'') demo_fs []") simp_all
  obtain fs' printed out where p: "projr (main (CHR ''/'') demo_fs []) = (fs', printed, out)"
    by (cases "projr (main (CHR ''/'') demo_fs [])")
  with m have m': "main (CHR ''/'') demo_fs [] = Inr (fs', printed, out)" by simp
  from t m' g(4) have f: "\<forall>q. lookup fs' ([] @ ''__pycache__'' # q) =
      lookup demo_fs ([] @ ''__pycache__'' # q)"
    by blast
  from f [rule_format, of "[''index.md'']"]
  have 2: "lookup fs' [''__pycache__'', ''index.md''] = None"
    by (simp add: demo_fs_def)
  from f [rule_format, of "[''c.md'']"]
  have 3: "lookup fs' [''__pycache__'', ''c.md''] = Some (RegFile [])"
    by (simp add: demo_fs_def)
  have 4: "fst (snd (projr (main (CHR ''/'') demo_fs []))) =
       [Generated [''proj'', ''index.md''], Generated [''empty'', ''index.md'']]"
    by code_simp
  from h g 1 m 2 3 4 p show ?thesis by simp
qed

subsection \<open>What the renderer reads\<close>

lemma classify_local:
  "(\<forall>item\<in>set items. lookup fs' (current_path @ [item]) = lookup fs (current_path @ [item])) \<Longrightarrow>
   classify fs' current_path items = classify fs current_path items"
proof -
  assume a: "\<forall>item\<in>set items. lookup fs' (current_path @ [item]) = lookup fs (current_path @ [item])"
  then have d: "\<forall>item\<in>set items. isdir fs' (current_path @ [item]) = isdir fs (current_path @ [item])"
    and f: "\<forall>item\<in>set items. isfile fs' (current_path @ [item]) = isfile fs (current_path @ [item])"
    by (simp_all add: isdir_def isfile_def)
  have 1: "fst (classify fs' current_path items) = fst (classify fs current_path items)"
    unfolding classify_directories using d by (intro filter_cong) auto
  have 2: "snd (classify fs' current_path items) = snd (classify fs current_path items)"
    unfolding classify_markdown_files using d f by (intro filter_cong) auto
  from 1 2 show ?thesis by (simp add: prod_eq_iff)
qed

lemma render_local:
  "(\<forall>q. lookup fs' (current_path @ q) = lookup fs (current_path @ q)) \<longrightarrow>
     generate_nested_list sep fs' root_path current_path base_indent =
     generate_nested_list sep fs root_path current_path base_indent"
  "(\<forall>q. lookup fs' (current_path @ q) = lookup fs (current_path @ q)) \<longrightarrow>
     directories_loop sep fs' root_path current_path base_indent ds =
     directories_loop sep fs root_path current_path base_indent ds"
proof (induction sep fs root_path current_path base_indent
         and sep fs root_path current_path base_indent ds
       rule: generate_nested_list_directories_loop.induct)
  case (1 sep fs root_path current_path base_indent)
  show ?case
  proof
    assume a: "\<forall>q. lookup fs' (current_path @ q) = lookup fs (current_path @ q)"
    from a [rule_format, of "[]"] have l: "listdir fs' current_path = listdir fs current_path"
      by (simp add: listdir_def)
    show "generate_nested_list sep fs' root_path current_path base_indent =
          generate_nested_list sep fs root_path current_path base_indent"
    proof (cases "listdir fs current_path")
      case (Inl e)
      with l show ?thesis by (simp add: generate_nested_list.simps)
    next
      case (Inr names)
      from a have c: "classify fs' current_path (sort names) = classify fs current_path (sort names)"
        by (intro classify_local) simp
      from 1 [OF Inr refl refl refl] a
      have "directories_loop sep fs' root_path current_path base_indent
              (fst (classify fs current_path (sort names))) =
            directories_loop sep fs root_path current_path base_indent
              (fst (classify fs current_path (sort names)))"
        by blast
      moreover from l Inr have "listdir fs' current_path = Inr names" by simp
      ultimately show ?thesis
        using c generate_nested_list_listed [OF Inr, of sep root_path base_indent]
          generate_nested_list_listed [of fs' current_path names sep root_path base_indent]
        by (simp cong: sum.case_cong)
    qed
  qed
next
  case (2 sep fs root_path current_path base_indent)
  show ?case by simp
next
  case (3 sep fs root_path current_path base_indent directory rest)
  show ?case
  proof
    assume a: "\<forall>q. lookup fs' (current_path @ q) = lookup fs (current_path @ q)"
    have "\<forall>q. lookup fs' ((current_path @ [directory]) @ q) =
               lookup fs ((current_path @ [directory]) @ q)"
      using a by simp
    with 3(1) [OF refl]
    have g: "generate_nested_list sep fs' root_path (current_path @ [directory]) (base_indent + 1) =
             generate_nested_list sep fs root_path (current_path @ [directory]) (base_indent + 1)"
      by blast
    show "directories_loop sep fs' root_path current_path base_indent (directory # rest) =
          directories_loop sep fs root_path current_path base_indent (directory # rest)"
    proof (cases "generate_nested_list sep fs root_path (current_path @ [directory]) (base_indent + 1)")
      case (Inl e)
      with g show ?thesis by simp
    next
      case (Inr sub_list)
      from 3(2) [OF refl Inr] a
      have "directories_loop sep fs' root_path current_path base_indent rest =
            directories_loop sep fs root_path current_path base_indent rest"
        by blast
      with g Inr show ?thesis by simp
    qed
  qed
qed

lemma directories_loop_local:
  "(\<forall>d\<in>set ds. \<forall>q. lookup fs' (current_path @ d # q) = lookup fs (current_path @ d # q)) \<Longrightarrow>
   directories_loop sep fs' root_path current_path base_indent ds =
   directories_loop sep fs root_path current_path base_indent ds"
proof (induction ds)
  case Nil
  show ?case by simp
next
  case (Cons d ds)
  then have "\<forall>q. lookup fs' ((current_path @ [d]) @ q) = lookup fs ((current_path @ [d]) @ q)"
    by simp
  with render_local(1) [of fs' "current_path @ [d]" fs sep root_path "base_indent + 1"]
  have "generate_nested_list sep fs' root_path (current_path @ [d]) (base_indent + 1) =
        generate_nested_list sep fs root_path (current_path @ [d]) (base_indent + 1)"
    by blast
  with Cons show ?case by (simp cong: sum.case_cong)
qed

subsection \<open>Writing into a directory\<close>

lemma update_absent: "map_of es x = None \<Longrightarrow> AList.update x v es = es @ [(x, v)]"
  by (induction es) (auto split: if_splits)

lemma put_single: "put (Dir r es) [x] new = Dir r (AList.update x new es)"
  by (simp add: update_absent split: option.splits)

lemma lookup_put_parent:
  "lookup fs p = Some (Dir r es) \<Longrightarrow>
   lookup (put fs (p @ [x]) new) p = Some (Dir r (AList.update x new es))"
proof (induction p arbitrary: fs)
  case Nil
  then show ?case by (simp add: put_single del: put.simps)
next
  case (Cons c p)
  then show ?case
    by (cases fs) (auto simp: update_conv' split: option.splits)
qed

lemma lookup_put_target:
  "lookup fs p = Some (Dir r es) \<Longrightarrow> lookup (put fs (p @ [x]) new) (p @ [x]) = Some new"
  using lookup_put_parent [of fs p r es x new]
  by (simp add: lookup_append update_conv')

lemma put_put: "put (put fs p a) p b = put fs p b"
proof (induction fs p a rule: put.induct)
  case (1 t new)
  show ?case by simp
next
  case (2 r es x xs new)
  show ?case
  proof (cases "map_of es x")
    case None
    then show ?thesis by (cases xs) (simp_all add: update_absent [symmetric] update_conv')
  next
    case (Some t)
    with 2 show ?thesis by (simp add: update_conv')
  qed
qed simp_all

lemma put_same: "lookup fs p = Some t \<Longrightarrow> put fs p t = fs"
proof (induction p arbitrary: fs)
  case Nil
  then show ?case by simp
next
  case (Cons c p)
  then show ?case
    by (cases fs) (auto simp: update_triv split: option.splits)
qed

lemma listdir_put_child:
  assumes "isdir fs p"
  shows "listdir fs p = Inl PermissionError \<and>
           listdir (put fs (p @ [x]) new) p = Inl PermissionError
         \<or> (\<exists>names. listdir fs p = Inr names \<and>
               listdir (put fs (p @ [x]) new) p =
                 Inr (if x \<in> set names then names else names @ [x]))"
proof -
  from assms obtain r es where l: "lookup fs p = Some (Dir r es)"
    by (auto simp: isdir_def split: option.splits node.splits)
  from lookup_put_parent [OF l, of x new] l show ?thesis
    by (cases r) (simp_all add: listdir_def update_keys)
qed

lemma filter_sort_snoc: "\<not> P x \<Longrightarrow> filter P (sort (names @ [x])) = filter P (sort names)"
  by (simp add: filter_sort)

lemma render_ignores_index_file:
  assumes "isdir fs p" and "\<not> isdir fs (p @ [''index.md''])"
  shows "generate_nested_list sep (put fs (p @ [''index.md'']) (RegFile c)) root_path p base_indent =
         generate_nested_list sep fs root_path p base_indent"
proof -
  let ?x = "''index.md''"
  let ?fs' = "put fs (p @ [?x]) (RegFile c)"
  from assms(1) obtain r es where l: "lookup fs p = Some (Dir r es)"
    by (auto simp: isdir_def split: option.splits node.splits)
  have other: "lookup ?fs' (p @ i # q) = lookup fs (p @ i # q)" if "i \<noteq> ?x" for i q
    using lookup_put_other [of ?x i fs p "[]" "RegFile c" q] that by simp
  have target: "lookup ?fs' (p @ [?x]) = Some (RegFile c)"
    by (rule lookup_put_target [OF l])
  have d: "isdir ?fs' (p @ [i]) = isdir fs (p @ [i])" for i
  proof (cases "i = ?x")
    case True
    with target assms(2) show ?thesis by (simp add: isdir_def)
  next
    case False
    from other [OF this, of "[]"] show ?thesis by (simp add: isdir_def)
  qed
  have f: "isfile ?fs' (p @ [i]) = isfile fs (p @ [i])" if "i \<noteq> ?x" for i
    using other [OF that, of "[]"] by (simp add: isfile_def)
  from listdir_put_child [OF assms(1), of ?x "RegFile c"] show ?thesis
  proof (elim disjE conjE exE)
    assume "listdir fs p = Inl PermissionError" "listdir ?fs' p = Inl PermissionError"
    then show ?thesis by (simp add: generate_nested_list.simps)
  next
    fix names
    assume n: "listdir fs p = Inr names"
      and n': "listdir ?fs' p = Inr (if ?x \<in> set names then names else names @ [?x])"
    let ?names' = "if ?x \<in> set names then names else names @ [?x]"
    have 1: "fst (classify ?fs' p (sort ?names')) = fst (classify fs p (sort names))"
      using assms(2) by (simp add: classify_directories d filter_sort_snoc)
    have "(\<lambda>item. \<not> (isdir ?fs' (p @ [item]) \<and> \<not> is_ignored_dir item) \<and>
                    isfile ?fs' (p @ [item]) \<and> endswith item ''.md'' \<and> item \<noteq> ?x) =
          (\<lambda>item. \<not> (isdir fs (p @ [item]) \<and> \<not> is_ignored_dir item) \<and>
                    isfile fs (p @ [item]) \<and> endswith item ''.md'' \<and> item \<noteq> ?x)"
      using d f by auto
    then have 2: "snd (classify ?fs' p (sort ?names')) = snd (classify fs p (sort names))"
      by (simp add: classify_markdown_files filter_sort_snoc)
    have "\<forall>dir\<in>set (fst (classify fs p (sort names))). \<forall>q.
            lookup ?fs' (p @ dir # q) = lookup fs (p @ dir # q)"
    proof (intro ballI allI)
      fix dir q
      assume "dir \<in> set (fst (classify fs p (sort names)))"
      then have "isdir fs (p @ [dir])" by (simp add: classify_directories)
      with assms(2) have "dir \<noteq> ?x" by auto
      then show "lookup ?fs' (p @ dir # q) = lookup fs (p @ dir # q)" by (rule other)
    qed
    from directories_loop_local [OF this]
    have 3: "directories_loop sep ?fs' root_path p base_indent (fst (classify fs p (sort names))) =
             directories_loop sep fs root_path p base_indent (fst (classify fs p (sort names)))" .
    show ?thesis
      using generate_nested_list_listed [OF n, of sep root_path base_indent]
        generate_nested_list_listed [OF n', of sep root_path base_indent] 1 2 3
      by (simp cong: sum.case_cong)
  qed
qed

subsection \<open>What \<open>strip\<close> leaves\<close>

lemma whitespace_no_star: "w \<in> set whitespace \<Longrightarrow> CHR ''*'' \<notin> set w"
  by (auto simp: whitespace_def)

lemma leading_space_take:
  "leading_space s \<noteq> 0 \<Longrightarrow> take (leading_space s) s \<in> set whitespace"
proof (cases "filter (\<lambda>w. take (length w) s = w) whitespace")
  case Nil
  assume "leading_space s \<noteq> 0"
  with Nil show ?thesis by (simp add: leading_space_def)
next
  case (Cons w ws)
  then have "w \<in> set (filter (\<lambda>w. take (length w) s = w) whitespace)" by simp
  then have "take (length w) s = w" "w \<in> set whitespace" by simp_all
  with Cons show ?thesis by (simp add: leading_space_def)
qed

lemma trailing_space_drop:
  "trailing_space s \<noteq> 0 \<Longrightarrow> drop (length s - trailing_space s) s \<in> set whitespace"
proof (cases "filter (\<lambda>w. endswith s w) whitespace")
  case Nil
  assume "trailing_space s \<noteq> 0"
  with Nil show ?thesis by (simp add: trailing_space_def)
next
  case (Cons w ws)
  then have "w \<in> set (filter (\<lambda>w. endswith s w) whitespace)" by simp
  then have "drop (length s - length w) s = w" "w \<in> set whitespace"
    by (simp_all add: endswith_def)
  with Cons show ?thesis by (simp add: trailing_space_def)
qed

lemma lstrip_keeps_star: "CHR ''*'' \<in> set s \<Longrightarrow> CHR ''*'' \<in> set (lstrip s)"
proof (induction s rule: lstrip.induct)
  case (1 s)
  show ?case
  proof (cases "leading_space s = 0")
    case True
    with 1(2) show ?thesis by (simp add: lstrip.simps [of s])
  next
    case False
    from leading_space_take [OF False] have "CHR ''*'' \<notin> set (take (leading_space s) s)"
      by (rule whitespace_no_star)
    moreover have "set s = set (take (leading_space s) s) \<union> set (drop (leading_space s) s)"
      by (metis append_take_drop_id set_append)
    ultimately have "CHR ''*'' \<in> set (drop (leading_space s) s)" using 1(2) by blast
    with 1(1) [OF False] False show ?thesis by (simp add: lstrip.simps [of s])
  qed
qed

lemma rstrip_keeps_star: "CHR ''*'' \<in> set s \<Longrightarrow> CHR ''*'' \<in> set (rstrip s)"
proof (induction s rule: rstrip.induct)
  case (1 s)
  show ?case
  proof (cases "trailing_space s = 0")
    case True
    with 1(2) show ?thesis by (simp add: rstrip.simps [of s])
  next
    case False
    from trailing_space_drop [OF False]
    have "CHR ''*'' \<notin> set (drop (length s - trailing_space s) s)"
      by (rule whitespace_no_star)
    moreover have "set s = set (take (length s - trailing_space s) s) \<union>
                           set (drop (length s - trailing_space s) s)"
      by (metis append_take_drop_id set_append)
    ultimately have "CHR ''*'' \<in> set (take (length s - trailing_space s) s)" using 1(2) by blast
    with 1(1) [OF False] False show ?thesis by (simp add: rstrip.simps [of s])
  qed
qed

lemma strip_star: "CHR ''*'' \<in> set s \<Longrightarrow> strip s \<noteq> []"
  using rstrip_keeps_star [OF lstrip_keeps_star, of s] by (auto simp: strip_def)

lemma strip_Nil: "strip [] = []"
proof -
  have "leading_space [] = 0" by (simp add: leading_space_def whitespace_def)
  then have "lstrip [] = []" by (simp add: lstrip.simps [of "[]"])
  moreover have "trailing_space [] = 0" using trailing_space_le [of "[]"] by simp
  then have "rstrip [] = []" by (simp add: rstrip.simps [of "[]"])
  ultimately show ?thesis by (simp add: strip_def)
qed

subsection \<open>The rendered list is empty or has a bullet\<close>

lemma render_star:
  assumes "generate_nested_list sep fs root_path current_path base_indent = Inr out"
    and "out \<noteq> []"
  shows "CHR ''*'' \<in> set out"
proof (cases "listdir fs current_path")
  case (Inl e)
  with assms(1) show ?thesis
    by (auto simp: generate_nested_list.simps inaccessible_entry_def split: if_splits)
next
  case (Inr names)
  from generate_nested_list_level [OF Inr, of sep root_path base_indent] assms
  show ?thesis
    by (auto simp: file_entry_def directory_entry_def)
qed

lemma render_empty_iff:
  assumes "listdir fs current_path = Inr names"
  shows "generate_nested_list sep fs root_path current_path base_indent = Inr [] \<longleftrightarrow>
         (\<forall>item\<in>set names.
            \<not> (isfile fs (current_path @ [item]) \<and> endswith item ''.md'' \<and> item \<noteq> ''index.md'') \<and>
            \<not> (isdir fs (current_path @ [item]) \<and> \<not> is_ignored_dir item))"
  using generate_nested_list_level [OF assms, of sep root_path base_indent]
  by (auto simp: file_entry_def directory_entry_def filter_empty_conv)

lemma strip_render:
  assumes "generate_nested_list sep fs root_path current_path base_indent = Inr out"
  shows "strip out \<noteq> [] \<longleftrightarrow> out \<noteq> []"
  using render_star [OF assms] strip_star [of out] strip_Nil by auto

subsection \<open>The writer on the output path of the driver\<close>

definition index_text :: "char \<Rightarrow> node \<Rightarrow> path \<Rightarrow> string" where
  \<comment> \<open>the two headings and the rendered list of a directory, or the placeholder where the
     list is empty\<close>
  "index_text sep fs root_path =
     ''# '' @ basename root_path @ newline @ newline @ ''## '' @ toc_title @ newline @ newline @
     (let nested_list = projr (generate_nested_list sep fs root_path root_path 0)
      in if nested_list \<noteq> [] then nested_list else ''* '' @ no_content_label @ newline)"

lemma generate_markdown_index_driver:
  assumes "isdir fs root_path" and "valid_names root_path"
  shows "generate_markdown_index sep fs root_path (root_path @ [''index.md'']) =
     (case lookup fs (root_path @ [''index.md'']) of
        Some (Dir r es) \<Rightarrow> (fs, Some IsADirectoryError)
      | Some Special \<Rightarrow> (fs, Some OSError)
      | _ \<Rightarrow> (put fs (root_path @ [''index.md'']) (RegFile (index_text sep fs root_path)), None))"
proof -
  let ?out = "root_path @ [''index.md'']"
  from assms(1) obtain r es where l: "lookup fs root_path = Some (Dir r es)"
    by (auto simp: isdir_def split: option.splits node.splits)
  have pre: "normpath root_path = root_path" "dirname ?out = root_path" "path_exists fs root_path"
    using assms(2) l by (simp_all add: normpath_valid dirname_def path_exists_def)
  have writable: "generate_markdown_index sep fs root_path ?out =
      (put fs ?out (RegFile (index_text sep fs root_path)), None)"
    if o: "open_for_writing fs ?out = Inr (put fs ?out (RegFile []))" and n: "\<not> isdir fs ?out"
  proof -
    from render_total(1) [of fs root_path sep root_path 0] assms(1)
    obtain nested_list where r: "generate_nested_list sep fs root_path root_path 0 = Inr nested_list"
      by blast
    with render_ignores_index_file [OF assms(1) n, of sep "[]" root_path 0]
    have r': "generate_nested_list sep (put fs ?out (RegFile [])) root_path root_path 0 =
              Inr nested_list"
      by simp
    from strip_render [OF r] r r' o pre show ?thesis
      by (simp add: generate_markdown_index_def Let_def index_text_def put_put)
  qed
  show ?thesis
  proof (cases "lookup fs ?out")
    case None
    with l pre have "open_for_writing fs ?out = Inr (put fs ?out (RegFile []))"
      by (simp add: open_for_writing_def)
    moreover from None have "\<not> isdir fs ?out" by (simp add: isdir_def)
    ultimately show ?thesis using writable None by simp
  next
    case (Some t)
    show ?thesis
    proof (cases t)
      case (RegFile old)
      with Some l pre have "open_for_writing fs ?out = Inr (put fs ?out (RegFile []))"
        by (simp add: open_for_writing_def)
      moreover from Some RegFile have "\<not> isdir fs ?out" by (simp add: isdir_def)
      ultimately show ?thesis using writable Some RegFile by simp
    next
      case Special
      with Some l pre show ?thesis
        by (simp add: generate_markdown_index_def Let_def open_for_writing_def)
    next
      case (Dir r' es')
      with Some l pre show ?thesis
        by (simp add: generate_markdown_index_def Let_def open_for_writing_def)
    qed
  qed
qed

section \<open>Properties of the index file writer\<close>

lemma index_text_parts:
  assumes "generate_nested_list sep fs root_path root_path 0 = Inr nested_list"
  shows "index_text sep fs root_path =
           ''# '' @ (if root_path = [] then [] else last root_path) @ [CHR 0x0A, CHR 0x0A] @
              ''## '' @ toc_title @ [CHR 0x0A, CHR 0x0A] @
           (if nested_list = [] then ''* '' @ no_content_label @ [CHR 0x0A] else nested_list)"
  using assms by (simp add: index_text_def basename_def newline_def)

text \<open>
  Claim C3. The root is a directory and its \<open>index.md\<close> is absent or a regular file with
  any content. The writer then leaves at that path the regular file that holds the line
  \<open># \<close> with the root's last name, an empty line, the line \<open>## \<close> with the heading literal,
  an empty line, and the rendered list of the root, or the one placeholder line where the
  list is empty; and the list is empty exactly when the root can be listed and holds no
  Markdown file to list and no directory that is not ignored. Neither the presence of the
  file nor what it held changes the list.
\<close>

theorem index_file_contents:
  assumes "isdir fs root_path" and "valid_names root_path"
    and "lookup fs (root_path @ [''index.md'']) = None \<or>
         lookup fs (root_path @ [''index.md'']) = Some (RegFile old)"
  shows "\<exists>nested_list.
     generate_nested_list sep fs root_path root_path 0 = Inr nested_list
     \<and> generate_markdown_index sep fs root_path (root_path @ [''index.md'']) =
         (put fs (root_path @ [''index.md''])
            (RegFile (''# '' @ (if root_path = [] then [] else last root_path) @ [CHR 0x0A, CHR 0x0A] @
              ''## '' @ toc_title @ [CHR 0x0A, CHR 0x0A] @
               (if nested_list = [] then ''* '' @ no_content_label @ [CHR 0x0A] else nested_list))),
          None)
     \<and> lookup (fst (generate_markdown_index sep fs root_path (root_path @ [''index.md''])))
           (root_path @ [''index.md'']) =
         Some (RegFile (''# '' @ (if root_path = [] then [] else last root_path) @ [CHR 0x0A, CHR 0x0A] @
              ''## '' @ toc_title @ [CHR 0x0A, CHR 0x0A] @
               (if nested_list = [] then ''* '' @ no_content_label @ [CHR 0x0A] else nested_list)))
     \<and> (nested_list = [] \<longleftrightarrow>
          (\<exists>names. listdir fs root_path = Inr names \<and>
             (\<forall>item\<in>set names.
                \<not> (isfile fs (root_path @ [item]) \<and> endswith item ''.md'' \<and> item \<noteq> ''index.md'') \<and>
                \<not> (isdir fs (root_path @ [item]) \<and> \<not> is_ignored_dir item))))
     \<and> (\<forall>content. generate_nested_list sep
            (put fs (root_path @ [''index.md'']) (RegFile content)) root_path root_path 0 =
          Inr nested_list)"
proof -
  let ?out = "root_path @ [''index.md'']"
  from render_total(1) [of fs root_path sep root_path 0] assms(1)
  obtain nested_list where r: "generate_nested_list sep fs root_path root_path 0 = Inr nested_list"
    by blast
  from assms(1) obtain rd es where l: "lookup fs root_path = Some (Dir rd es)"
    by (auto simp: isdir_def split: option.splits node.splits)
  from assms(3) have n: "\<not> isdir fs ?out" by (auto simp: isdir_def)
  let ?text = "''# '' @ (if root_path = [] then [] else last root_path) @ [CHR 0x0A, CHR 0x0A] @
              ''## '' @ toc_title @ [CHR 0x0A, CHR 0x0A] @
               (if nested_list = [] then ''* '' @ no_content_label @ [CHR 0x0A] else nested_list)"
  have g: "generate_markdown_index sep fs root_path ?out = (put fs ?out (RegFile ?text), None)"
    using generate_markdown_index_driver [OF assms(1,2), of sep] assms(3)
      index_text_parts [OF r]
    by auto
  have w: "lookup (fst (generate_markdown_index sep fs root_path ?out)) ?out = Some (RegFile ?text)"
    unfolding g using lookup_put_target [OF l] by simp
  have e: "nested_list = [] \<longleftrightarrow>
          (\<exists>names. listdir fs root_path = Inr names \<and>
             (\<forall>item\<in>set names.
                \<not> (isfile fs (root_path @ [item]) \<and> endswith item ''.md'' \<and> item \<noteq> ''index.md'') \<and>
                \<not> (isdir fs (root_path @ [item]) \<and> \<not> is_ignored_dir item)))"
  proof (cases "listdir fs root_path")
    case (Inl e)
    with r have "nested_list = inaccessible_entry 0"
      by (auto simp: generate_nested_list.simps split: if_splits)
    with Inl show ?thesis by (simp add: inaccessible_entry_def)
  next
    case (Inr names)
    from render_empty_iff [OF Inr, of sep root_path 0] r Inr show ?thesis by simp
  qed
  have i: "\<forall>content. generate_nested_list sep (put fs ?out (RegFile content)) root_path root_path 0 =
          Inr nested_list"
    using render_ignores_index_file [OF assms(1) n, of sep _ root_path 0] r by simp
  from r g w e i show ?thesis by blast
qed

theorem index_file_contents_witness:
  "isdir demo_fs [''empty''] \<and> valid_names [''empty'']
   \<and> lookup demo_fs ([''empty''] @ [''index.md'']) = None
   \<and> generate_markdown_index (CHR ''/'') demo_fs [''empty''] ([''empty''] @ [''index.md'']) =
       (put demo_fs ([''empty''] @ [''index.md''])
          (RegFile (''# empty'' @ [CHR 0x0A, CHR 0x0A] @ ''## '' @ toc_title @ [CHR 0x0A, CHR 0x0A] @
                    ''* '' @ no_content_label @ [CHR 0x0A])),
        None)
   \<and> isdir demo_fs [''proj''] \<and> valid_names [''proj'']
   \<and> lookup demo_fs ([''proj''] @ [''index.md'']) = Some (RegFile ''old'')
   \<and> lookup (fst (generate_markdown_index (CHR ''/'') demo_fs [''proj'']
                     ([''proj''] @ [''index.md''])))
         ([''proj''] @ [''index.md'']) =
       Some (RegFile (''# proj'' @ [CHR 0x0A, CHR 0x0A] @ ''## '' @ toc_title @ [CHR 0x0A, CHR 0x0A] @
            ''* [notes](notes.md)'' @ newline @ ''* [readme](readme.md)'' @ newline @
            ''* [z](z.md)'' @ newline @
            ''* a'' @ newline @
            ''* locked'' @ newline @ ''    * ['' @ inaccessible_label @ '']'' @ newline @
            ''* src'' @ newline @ ''    * [main](src/main.md)'' @ newline))"
proof -
  have e1: "isdir demo_fs [''empty'']" and e2: "valid_names [''empty'']"
    and e3: "lookup demo_fs ([''empty''] @ [''index.md'']) = None"
    and e4: "listdir demo_fs [''empty''] = Inr []"
    by (simp_all add: isdir_def demo_fs_def valid_names_def listdir_def)
  from index_file_contents [OF e1 e2 disjI1 [OF e3], of "CHR ''/''"] e4
  have a: "generate_markdown_index (CHR ''/'') demo_fs [''empty''] ([''empty''] @ [''index.md'']) =
       (put demo_fs ([''empty''] @ [''index.md''])
          (RegFile (''# empty'' @ [CHR 0x0A, CHR 0x0A] @ ''## '' @ toc_title @ [CHR 0x0A, CHR 0x0A] @
                    ''* '' @ no_content_label @ [CHR 0x0A])),
        None)"
    by auto
  have p1: "isdir demo_fs [''proj'']" and p2: "valid_names [''proj'']"
    and p3: "lookup demo_fs ([''proj''] @ [''index.md'']) = Some (RegFile ''old'')"
    by (simp_all add: isdir_def demo_fs_def valid_names_def)
  have out: "generate_nested_list (CHR ''/'') demo_fs [''proj''] [''proj''] 0 =
       Inr (''* [notes](notes.md)'' @ newline @ ''* [readme](readme.md)'' @ newline @
            ''* [z](z.md)'' @ newline @
            ''* a'' @ newline @
            ''* locked'' @ newline @ ''    * ['' @ inaccessible_label @ '']'' @ newline @
            ''* src'' @ newline @ ''    * [main](src/main.md)'' @ newline)"
    by code_simp
  from index_file_contents [OF p1 p2 disjI2 [OF p3], of "CHR ''/''"] out
  have b: "lookup (fst (generate_markdown_index (CHR ''/'') demo_fs [''proj'']
                     ([''proj''] @ [''index.md''])))
         ([''proj''] @ [''index.md'']) =
       Some (RegFile (''# proj'' @ [CHR 0x0A, CHR 0x0A] @ ''## '' @ toc_title @ [CHR 0x0A, CHR 0x0A] @
            ''* [notes](notes.md)'' @ newline @ ''* [readme](readme.md)'' @ newline @
            ''* [z](z.md)'' @ newline @
            ''* a'' @ newline @
            ''* locked'' @ newline @ ''    * ['' @ inaccessible_label @ '']'' @ newline @
            ''* src'' @ newline @ ''    * [main](src/main.md)'' @ newline))"
    by (auto simp: newline_def)
  from e1 e2 e3 a p1 p2 p3 b show ?thesis by (intro conjI)
qed

text \<open>
  Claim C10. The root is a directory and its \<open>index.md\<close> is absent or a regular file. What
  the writer leaves in the file after the two headings is the rendered list when that is
  not empty, and the placeholder line when it is. For a root whose listing raises a
  permission error the list is the one line that marks an inaccessible directory, so that
  line is the body and the placeholder is not written. The placeholder is written exactly
  when the root can be listed and holds no Markdown file to list and no directory that is
  not ignored.
\<close>

theorem unreadable_root_is_not_empty_root:
  assumes "isdir fs root_path" and "valid_names root_path"
    and "lookup fs (root_path @ [''index.md'']) = None \<or>
         lookup fs (root_path @ [''index.md'']) = Some (RegFile old)"
  shows "\<exists>nested_list body.
     generate_nested_list sep fs root_path root_path 0 = Inr nested_list
     \<and> lookup (fst (generate_markdown_index sep fs root_path (root_path @ [''index.md''])))
           (root_path @ [''index.md'']) =
         Some (RegFile (''# '' @ (if root_path = [] then [] else last root_path) @
                        [CHR 0x0A, CHR 0x0A] @ ''## '' @ toc_title @ [CHR 0x0A, CHR 0x0A] @ body))
     \<and> (nested_list \<noteq> [] \<longrightarrow> body = nested_list)
     \<and> (nested_list = [] \<longrightarrow> body = ''* '' @ no_content_label @ [CHR 0x0A])
     \<and> (listdir fs root_path = Inl PermissionError \<longrightarrow>
          nested_list = ''* ['' @ inaccessible_label @ '']'' @ [CHR 0x0A]
          \<and> body = ''* ['' @ inaccessible_label @ '']'' @ [CHR 0x0A]
          \<and> body \<noteq> ''* '' @ no_content_label @ [CHR 0x0A])
     \<and> (nested_list = [] \<longleftrightarrow>
          (\<exists>names. listdir fs root_path = Inr names \<and>
             (\<forall>item\<in>set names.
                \<not> (isfile fs (root_path @ [item]) \<and> endswith item ''.md'' \<and> item \<noteq> ''index.md'') \<and>
                \<not> (isdir fs (root_path @ [item]) \<and> \<not> is_ignored_dir item))))"
proof -
  let ?out = "root_path @ [''index.md'']"
  from render_total(1) [of fs root_path sep root_path 0] assms(1)
  obtain nested_list where r: "generate_nested_list sep fs root_path root_path 0 = Inr nested_list"
    by blast
  from assms(1) obtain rd es where l: "lookup fs root_path = Some (Dir rd es)"
    by (auto simp: isdir_def split: option.splits node.splits)
  let ?body = "if nested_list = [] then ''* '' @ no_content_label @ [CHR 0x0A] else nested_list"
  have "generate_markdown_index sep fs root_path ?out =
          (put fs ?out (RegFile (index_text sep fs root_path)), None)"
    using generate_markdown_index_driver [OF assms(1,2), of sep] assms(3) by auto
  then have w: "lookup (fst (generate_markdown_index sep fs root_path ?out)) ?out =
         Some (RegFile (''# '' @ (if root_path = [] then [] else last root_path) @
                        [CHR 0x0A, CHR 0x0A] @ ''## '' @ toc_title @ [CHR 0x0A, CHR 0x0A] @ ?body))"
    using lookup_put_target [OF l] index_text_parts [OF r] by simp
  have p: "nested_list = ''* ['' @ inaccessible_label @ '']'' @ [CHR 0x0A]
          \<and> ?body = ''* ['' @ inaccessible_label @ '']'' @ [CHR 0x0A]
          \<and> ?body \<noteq> ''* '' @ no_content_label @ [CHR 0x0A]"
    if "listdir fs root_path = Inl PermissionError"
    using that r
    by (auto simp: generate_nested_list.simps inaccessible_entry_def indentation_def newline_def
        inaccessible_label_def no_content_label_def)
  have e: "nested_list = [] \<longleftrightarrow>
          (\<exists>names. listdir fs root_path = Inr names \<and>
             (\<forall>item\<in>set names.
                \<not> (isfile fs (root_path @ [item]) \<and> endswith item ''.md'' \<and> item \<noteq> ''index.md'') \<and>
                \<not> (isdir fs (root_path @ [item]) \<and> \<not> is_ignored_dir item)))"
  proof (cases "listdir fs root_path")
    case (Inl e)
    with r have "nested_list = inaccessible_entry 0"
      by (auto simp: generate_nested_list.simps split: if_splits)
    with Inl show ?thesis by (simp add: inaccessible_entry_def)
  next
    case (Inr names)
    from render_empty_iff [OF Inr, of sep root_path 0] r Inr show ?thesis by simp
  qed
  have c1: "nested_list \<noteq> [] \<longrightarrow> ?body = nested_list" by simp
  have c2: "nested_list = [] \<longrightarrow> ?body = ''* '' @ no_content_label @ [CHR 0x0A]" by simp
  from p have p': "listdir fs root_path = Inl PermissionError \<longrightarrow>
          nested_list = ''* ['' @ inaccessible_label @ '']'' @ [CHR 0x0A]
          \<and> ?body = ''* ['' @ inaccessible_label @ '']'' @ [CHR 0x0A]
          \<and> ?body \<noteq> ''* '' @ no_content_label @ [CHR 0x0A]"
    by blast
  show ?thesis
    by (intro exI [of _ nested_list] exI [of _ ?body] conjI r w c1 c2 p' e)
qed

definition locked_fs :: node where
  "locked_fs = Dir True [(''vault'', Dir False [(''secret.md'', RegFile [])]),
                         (''blank'', Dir True [(''.git'', Dir True [(''x.md'', RegFile [])])])]"

theorem unreadable_root_is_not_empty_root_witness:
  "isdir locked_fs [''vault''] \<and> valid_names [''vault'']
   \<and> lookup locked_fs ([''vault''] @ [''index.md'']) = None
   \<and> listdir locked_fs [''vault''] = Inl PermissionError
   \<and> lookup (fst (generate_markdown_index (CHR ''/'') locked_fs [''vault'']
                     ([''vault''] @ [''index.md''])))
         ([''vault''] @ [''index.md'']) =
       Some (RegFile (''# vault'' @ [CHR 0x0A, CHR 0x0A] @ ''## '' @ toc_title @ [CHR 0x0A, CHR 0x0A] @
                      ''* ['' @ inaccessible_label @ '']'' @ [CHR 0x0A]))
   \<and> isdir locked_fs [''blank''] \<and> valid_names [''blank'']
   \<and> lookup locked_fs ([''blank''] @ [''index.md'']) = None
   \<and> listdir locked_fs [''blank''] = Inr [''.git'']
   \<and> lookup (fst (generate_markdown_index (CHR ''/'') locked_fs [''blank'']
                     ([''blank''] @ [''index.md''])))
         ([''blank''] @ [''index.md'']) =
       Some (RegFile (''# blank'' @ [CHR 0x0A, CHR 0x0A] @ ''## '' @ toc_title @ [CHR 0x0A, CHR 0x0A] @
                      ''* '' @ no_content_label @ [CHR 0x0A]))"
proof -
  have v1: "isdir locked_fs [''vault'']" and v2: "valid_names [''vault'']"
    and v3: "lookup locked_fs ([''vault''] @ [''index.md'']) = None"
    and v4: "listdir locked_fs [''vault''] = Inl PermissionError"
    by (simp_all add: isdir_def locked_fs_def valid_names_def listdir_def)
  from unreadable_root_is_not_empty_root [OF v1 v2 disjI1 [OF v3], of "CHR ''/''"] v4
  have a: "lookup (fst (generate_markdown_index (CHR ''/'') locked_fs [''vault'']
                     ([''vault''] @ [''index.md''])))
         ([''vault''] @ [''index.md'']) =
       Some (RegFile (''# vault'' @ [CHR 0x0A, CHR 0x0A] @ ''## '' @ toc_title @ [CHR 0x0A, CHR 0x0A] @
                      ''* ['' @ inaccessible_label @ '']'' @ [CHR 0x0A]))"
    by auto
  have b1: "isdir locked_fs [''blank'']" and b2: "valid_names [''blank'']"
    and b3: "lookup locked_fs ([''blank''] @ [''index.md'']) = None"
    and b4: "listdir locked_fs [''blank''] = Inr [''.git'']"
    by (simp_all add: isdir_def locked_fs_def valid_names_def listdir_def)
  have b5: "\<forall>item\<in>set [''.git''].
      \<not> (isfile locked_fs ([''blank''] @ [item]) \<and> endswith item ''.md'' \<and> item \<noteq> ''index.md'') \<and>
      \<not> (isdir locked_fs ([''blank''] @ [item]) \<and> \<not> is_ignored_dir item)"
    by (simp add: isfile_def locked_fs_def is_ignored_dir_def)
  from unreadable_root_is_not_empty_root [OF b1 b2 disjI1 [OF b3], of "CHR ''/''"] b4 b5
  have b: "lookup (fst (generate_markdown_index (CHR ''/'') locked_fs [''blank'']
                     ([''blank''] @ [''index.md''])))
         ([''blank''] @ [''index.md'']) =
       Some (RegFile (''# blank'' @ [CHR 0x0A, CHR 0x0A] @ ''## '' @ toc_title @ [CHR 0x0A, CHR 0x0A] @
                      ''* '' @ no_content_label @ [CHR 0x0A]))"
    by auto
  from v1 v2 v3 v4 a b1 b2 b3 b4 b show ?thesis by (intro conjI)
qed

section \<open>Running the driver again\<close>

definition index_line :: "node \<Rightarrow> path \<Rightarrow> string \<Rightarrow> message" where
  \<comment> \<open>the line the driver prints for a subdirectory, read off what its \<open>index.md\<close> is\<close>
  "index_line fs current_dir d =
     (case lookup fs (current_dir @ [d, ''index.md'']) of
        Some (Dir r es) \<Rightarrow> Failed d IsADirectoryError
      | Some Special \<Rightarrow> Failed d OSError
      | _ \<Rightarrow> Generated (current_dir @ [d, ''index.md'']))"

definition settled :: "char \<Rightarrow> node \<Rightarrow> path \<Rightarrow> bool" where
  \<comment> \<open>the \<open>index.md\<close> of the directory holds the text the writer would put there now, or
     cannot be written\<close>
  "settled sep fs root_path =
     (case lookup fs (root_path @ [''index.md'']) of
        None \<Rightarrow> False
      | Some (RegFile c) \<Rightarrow> c = index_text sep fs root_path
      | Some _ \<Rightarrow> True)"

lemma keys_put_deeper:
  "lookup fs p = Some (Dir r es) \<Longrightarrow>
   \<exists>es'. lookup (put fs (p @ a # b # q) new) p = Some (Dir r es') \<and> map fst es' = map fst es"
proof (induction p arbitrary: fs)
  case Nil
  then show ?case
    by (cases "map_of es a") (auto simp: update_keys dest: map_of_SomeD intro: rev_image_eqI)
next
  case (Cons c p)
  then show ?case
    by (cases fs) (auto simp: update_conv' split: option.splits)
qed

lemma listdir_put_deeper:
  "isdir fs p \<Longrightarrow> listdir (put fs (p @ a # b # q) new) p = listdir fs p"
proof -
  assume "isdir fs p"
  then obtain r es where l: "lookup fs p = Some (Dir r es)"
    by (auto simp: isdir_def split: option.splits node.splits)
  from keys_put_deeper [OF l, of a b q new] l show ?thesis
    by (auto simp: listdir_def)
qed

text \<open>One call of the writer, as the driver makes it.\<close>

lemma step_facts:
  fixes sep :: char and fs :: node and current_dir :: path and d :: string
  assumes d: "isdir fs (current_dir @ [d])" and v: "valid_names (current_dir @ [d])"
    and c: "isdir fs current_dir"
  defines "g \<equiv> generate_markdown_index sep fs (current_dir @ [d]) (current_dir @ [d, ''index.md''])"
  shows "(case snd g of None \<Rightarrow> Generated (current_dir @ [d, ''index.md''])
                      | Some e \<Rightarrow> Failed d e) = index_line fs current_dir d"
    and "isdir (fst g) (current_dir @ [i]) = isdir fs (current_dir @ [i])"
    and "listdir (fst g) current_dir = listdir fs current_dir"
    and "index_line (fst g) current_dir d0 = index_line fs current_dir d0"
    and "isdir fs (current_dir @ [d0]) \<Longrightarrow>
         generate_nested_list sep (fst g) (current_dir @ [d0]) (current_dir @ [d0]) 0 =
         generate_nested_list sep fs (current_dir @ [d0]) (current_dir @ [d0]) 0"
    and "settled sep (fst g) (current_dir @ [d])"
    and "settled sep fs (current_dir @ [d0]) \<Longrightarrow> isdir fs (current_dir @ [d0]) \<Longrightarrow>
         settled sep (fst g) (current_dir @ [d0])"
proof -
  let ?root = "current_dir @ [d]"
  let ?out = "current_dir @ [d, ''index.md'']"
  have k: "g = (case lookup fs ?out of
        Some (Dir r es) \<Rightarrow> (fs, Some IsADirectoryError)
      | Some Special \<Rightarrow> (fs, Some OSError)
      | _ \<Rightarrow> (put fs ?out (RegFile (index_text sep fs ?root)), None))"
    using generate_markdown_index_driver [OF d v, of sep]
    by (simp add: g_def split: option.splits node.splits)
  from d obtain r es where l: "lookup fs ?root = Some (Dir r es)"
    by (auto simp: isdir_def split: option.splits node.splits)
  have other: "lookup (fst g) (current_dir @ b # q) = lookup fs (current_dir @ b # q)"
    if "d \<noteq> b" for b q
    using generate_markdown_index_other [OF that, of "[''index.md'']" sep fs ?root current_dir q]
    by (simp add: g_def)
  consider (kept) "fst g = fs" "\<exists>r' es'. lookup fs ?out = Some (Dir r' es') \<or> lookup fs ?out = Some Special"
    | (written) "fst g = put fs ?out (RegFile (index_text sep fs ?root))" "snd g = None"
        "\<not> isdir fs ?out" "lookup fs ?out \<noteq> Some Special"
    using k by (auto simp: isdir_def split: option.splits node.splits)
  note cases = this
  have target: "lookup (put fs ?out new) ?out = Some new" for new
    using lookup_put_target [OF l, of "''index.md''" new] by simp
  have parent: "isdir (put fs ?out new) ?root" for new
    using lookup_put_parent [OF l, of "''index.md''" new] by (simp add: isdir_def)
  show 1: "(case snd g of None \<Rightarrow> Generated ?out | Some e \<Rightarrow> Failed d e) = index_line fs current_dir d"
    using k by (auto simp: index_line_def split: option.splits node.splits)
  show 2: "isdir (fst g) (current_dir @ [i]) = isdir fs (current_dir @ [i])"
  proof (cases "d = i")
    case False
    from other [OF this, of "[]"] show ?thesis by (simp add: isdir_def)
  next
    case True
    with cases d parent show ?thesis by (metis)
  qed
  show 3: "listdir (fst g) current_dir = listdir fs current_dir"
  proof (cases rule: cases)
    case kept
    then show ?thesis by simp
  next
    case written
    with listdir_put_deeper [OF c, of d "''index.md''" "[]"] show ?thesis by simp
  qed
  show 4: "index_line (fst g) current_dir d0 = index_line fs current_dir d0"
  proof (cases "d = d0")
    case False
    from other [OF this, of "[''index.md'']"] show ?thesis by (simp add: index_line_def)
  next
    case True
    show ?thesis
    proof (cases rule: cases)
      case kept
      then show ?thesis by simp
    next
      case written
      with target True show ?thesis
        by (auto simp: index_line_def isdir_def split: option.splits node.splits)
    qed
  qed
  have r5: "generate_nested_list sep (fst g) (current_dir @ [x]) (current_dir @ [x]) 0 =
            generate_nested_list sep fs (current_dir @ [x]) (current_dir @ [x]) 0"
    if "isdir fs (current_dir @ [x])" for x
  proof (cases "d = x")
    case False
    have "\<forall>q. lookup (fst g) ((current_dir @ [x]) @ q) = lookup fs ((current_dir @ [x]) @ q)"
      using other [OF False] by simp
    with render_local(1) [of "fst g" "current_dir @ [x]" fs sep "current_dir @ [x]" 0]
    show ?thesis by blast
  next
    case True
    show ?thesis
    proof (cases rule: cases)
      case kept
      then show ?thesis by simp
    next
      case written
      with render_ignores_index_file [of fs "current_dir @ [d]" sep _ "current_dir @ [d]" 0] d True
      show ?thesis by simp
    qed
  qed
  from r5 show "isdir fs (current_dir @ [d0]) \<Longrightarrow>
         generate_nested_list sep (fst g) (current_dir @ [d0]) (current_dir @ [d0]) 0 =
         generate_nested_list sep fs (current_dir @ [d0]) (current_dir @ [d0]) 0" .
  have 5: "index_text sep (fst g) (current_dir @ [x]) = index_text sep fs (current_dir @ [x])"
    if "isdir fs (current_dir @ [x])" for x
    using r5 [OF that] by (simp add: index_text_def)
  show 6: "settled sep (fst g) ?root"
  proof (cases rule: cases)
    case kept
    then show ?thesis by (auto simp: settled_def)
  next
    case written
    with target 5 [OF d] show ?thesis by (simp add: settled_def)
  qed
  show "settled sep (fst g) (current_dir @ [d0])"
    if s: "settled sep fs (current_dir @ [d0])" and i: "isdir fs (current_dir @ [d0])"
  proof (cases "d = d0")
    case True
    with 6 show ?thesis by simp
  next
    case False
    from other [OF this, of "[''index.md'']"] 5 [OF i] s show ?thesis
      by (simp add: settled_def split: option.splits node.splits)
  qed
qed

lemma isdir_iff_listdir:
  "isdir fs p \<longleftrightarrow> listdir fs p = Inl PermissionError \<or> (\<exists>names. listdir fs p = Inr names)"
  by (auto simp: isdir_def listdir_def split: option.splits node.splits)

definition run_facts :: "char \<Rightarrow> path \<Rightarrow> string list \<Rightarrow> node \<Rightarrow> node \<times> message list \<Rightarrow> bool" where
  \<comment> \<open>what a pass of the driver over the subdirectories \<open>ds\<close> keeps and achieves\<close>
  "run_facts sep current_dir ds fs result \<longleftrightarrow>
     snd result = map (index_line fs current_dir) ds
     \<and> listdir (fst result) current_dir = listdir fs current_dir
     \<and> (\<forall>i. isdir (fst result) (current_dir @ [i]) = isdir fs (current_dir @ [i]))
     \<and> (\<forall>d0. index_line (fst result) current_dir d0 = index_line fs current_dir d0)
     \<and> (\<forall>d0. isdir fs (current_dir @ [d0]) \<longrightarrow>
           generate_nested_list sep (fst result) (current_dir @ [d0]) (current_dir @ [d0]) 0 =
           generate_nested_list sep fs (current_dir @ [d0]) (current_dir @ [d0]) 0)
     \<and> (\<forall>d0\<in>set ds. settled sep (fst result) (current_dir @ [d0]))
     \<and> (\<forall>d0. settled sep fs (current_dir @ [d0]) \<and> isdir fs (current_dir @ [d0]) \<longrightarrow>
           settled sep (fst result) (current_dir @ [d0]))"

lemma first_run:
  "isdir fs current_dir \<Longrightarrow>
   \<forall>d\<in>set ds. isdir fs (current_dir @ [d]) \<and> valid_names (current_dir @ [d]) \<Longrightarrow>
   run_facts sep current_dir ds fs (index_each sep fs current_dir ds)"
proof (induction ds arbitrary: fs)
  case Nil
  show ?case by (simp add: run_facts_def)
next
  case (Cons d rest)
  let ?g = "generate_markdown_index sep fs (current_dir @ [d]) (current_dir @ [d, ''index.md''])"
  from Cons.prems have d: "isdir fs (current_dir @ [d])" and v: "valid_names (current_dir @ [d])"
    by simp_all
  note s = step_facts [OF d v Cons.prems(1), where sep = sep]
  from s(3) Cons.prems(1) have c': "isdir (fst ?g) current_dir"
    by (simp add: isdir_iff_listdir)
  from s(2) Cons.prems(2)
  have r': "\<forall>d\<in>set rest. isdir (fst ?g) (current_dir @ [d]) \<and> valid_names (current_dir @ [d])"
    by simp
  from Cons.IH [OF c' r']
  have ih: "run_facts sep current_dir rest (fst ?g) (index_each sep (fst ?g) current_dir rest)" .
  obtain fs1 raised where g: "?g = (fs1, raised)" by (cases ?g)
  obtain fs2 printed where e: "index_each sep fs1 current_dir rest = (fs2, printed)"
    by (cases "index_each sep fs1 current_dir rest")
  have res: "index_each sep fs current_dir (d # rest) =
      (fs2, (case raised of None \<Rightarrow> Generated (current_dir @ [d, ''index.md''])
                          | Some e \<Rightarrow> Failed d e) # printed)"
    using g e by (cases raised) (simp_all add: Let_def)
  from ih g e have ih': "run_facts sep current_dir rest fs1 (fs2, printed)" by simp
  from s g have s1: "(case raised of None \<Rightarrow> Generated (current_dir @ [d, ''index.md''])
                          | Some e \<Rightarrow> Failed d e) = index_line fs current_dir d"
    and s2: "\<And>i. isdir fs1 (current_dir @ [i]) = isdir fs (current_dir @ [i])"
    and s3: "listdir fs1 current_dir = listdir fs current_dir"
    and s4: "\<And>d0. index_line fs1 current_dir d0 = index_line fs current_dir d0"
    and s5: "\<And>d0. isdir fs (current_dir @ [d0]) \<Longrightarrow>
         generate_nested_list sep fs1 (current_dir @ [d0]) (current_dir @ [d0]) 0 =
         generate_nested_list sep fs (current_dir @ [d0]) (current_dir @ [d0]) 0"
    and s6: "settled sep fs1 (current_dir @ [d])"
    and s7: "\<And>d0. settled sep fs (current_dir @ [d0]) \<Longrightarrow> isdir fs (current_dir @ [d0]) \<Longrightarrow>
         settled sep fs1 (current_dir @ [d0])"
    by simp_all
  from ih' have i1: "printed = map (index_line fs1 current_dir) rest"
    and i2: "listdir fs2 current_dir = listdir fs1 current_dir"
    and i3: "\<And>i. isdir fs2 (current_dir @ [i]) = isdir fs1 (current_dir @ [i])"
    and i4: "\<And>d0. index_line fs2 current_dir d0 = index_line fs1 current_dir d0"
    and i5: "\<And>d0. isdir fs1 (current_dir @ [d0]) \<Longrightarrow>
           generate_nested_list sep fs2 (current_dir @ [d0]) (current_dir @ [d0]) 0 =
           generate_nested_list sep fs1 (current_dir @ [d0]) (current_dir @ [d0]) 0"
    and i6: "\<And>d0. d0 \<in> set rest \<Longrightarrow> settled sep fs2 (current_dir @ [d0])"
    and i7: "\<And>d0. settled sep fs1 (current_dir @ [d0]) \<Longrightarrow> isdir fs1 (current_dir @ [d0]) \<Longrightarrow>
           settled sep fs2 (current_dir @ [d0])"
    by (simp_all add: run_facts_def)
  have "run_facts sep current_dir (d # rest) fs
          (fs2, (case raised of None \<Rightarrow> Generated (current_dir @ [d, ''index.md''])
                              | Some e \<Rightarrow> Failed d e) # printed)"
    unfolding run_facts_def fst_conv snd_conv
  proof (intro conjI allI impI ballI)
    show "(case raised of None \<Rightarrow> Generated (current_dir @ [d, ''index.md''])
                        | Some e \<Rightarrow> Failed d e) # printed =
          map (index_line fs current_dir) (d # rest)"
      using s1 i1 s4 by simp
    show "listdir fs2 current_dir = listdir fs current_dir" using i2 s3 by simp
    show "isdir fs2 (current_dir @ [i]) = isdir fs (current_dir @ [i])" for i
      using i3 s2 by simp
    show "index_line fs2 current_dir d0 = index_line fs current_dir d0" for d0
      using i4 s4 by simp
    show "generate_nested_list sep fs2 (current_dir @ [d0]) (current_dir @ [d0]) 0 =
          generate_nested_list sep fs (current_dir @ [d0]) (current_dir @ [d0]) 0"
      if "isdir fs (current_dir @ [d0])" for d0
      using that i5 [of d0] s5 [of d0] s2 [of d0] by simp
    show "settled sep fs2 (current_dir @ [d0])" if "d0 \<in> set (d # rest)" for d0
    proof (cases "d0 \<in> set rest")
      case True
      then show ?thesis by (rule i6)
    next
      case False
      with that have "d0 = d" by simp
      with s6 i7 [of d] s2 [of d] d show ?thesis by simp
    qed
    show "settled sep fs2 (current_dir @ [d0])"
      if "settled sep fs (current_dir @ [d0]) \<and> isdir fs (current_dir @ [d0])" for d0
      using that s7 [of d0] i7 [of d0] s2 [of d0] by simp
  qed
  with res show ?case by simp
qed

lemma settled_stays:
  assumes "isdir fs (current_dir @ [d])" and "valid_names (current_dir @ [d])"
    and "settled sep fs (current_dir @ [d])"
  shows "fst (generate_markdown_index sep fs (current_dir @ [d]) (current_dir @ [d, ''index.md''])) = fs"
  using generate_markdown_index_driver [OF assms(1,2), where sep = sep] assms(3)
  by (auto simp: settled_def put_same split: option.splits node.splits)

lemma second_run:
  assumes "isdir fs current_dir"
  shows "\<forall>d\<in>set ds. isdir fs (current_dir @ [d]) \<and> valid_names (current_dir @ [d]) \<and>
                   settled sep fs (current_dir @ [d]) \<Longrightarrow>
   index_each sep fs current_dir ds = (fs, map (index_line fs current_dir) ds)"
proof (induction ds)
  case Nil
  show ?case by simp
next
  case (Cons d rest)
  let ?g = "generate_markdown_index sep fs (current_dir @ [d]) (current_dir @ [d, ''index.md''])"
  from Cons.prems have d: "isdir fs (current_dir @ [d])" and v: "valid_names (current_dir @ [d])"
    and s: "settled sep fs (current_dir @ [d])"
    by simp_all
  have f: "fst ?g = fs" by (rule settled_stays [OF d v s])
  obtain raised where g: "?g = (fs, raised)" using f by (cases ?g) simp
  from step_facts(1) [OF d v assms, where sep = sep] g
  have l: "(case raised of None \<Rightarrow> Generated (current_dir @ [d, ''index.md''])
                          | Some e \<Rightarrow> Failed d e) = index_line fs current_dir d"
    by simp
  from Cons have "index_each sep fs current_dir rest = (fs, map (index_line fs current_dir) rest)"
    by simp
  with g l show ?case by (cases raised) (simp_all add: Let_def)
qed

lemma index_line_generated:
  "index_line fs current_dir d = Generated (current_dir @ [d, ''index.md'']) \<longleftrightarrow>
     (\<forall>r es. lookup fs (current_dir @ [d, ''index.md'']) \<noteq> Some (Dir r es)) \<and>
     lookup fs (current_dir @ [d, ''index.md'']) \<noteq> Some Special"
  by (simp add: index_line_def split: option.splits node.splits)

lemma settled_text:
  assumes "settled sep fs (current_dir @ [d])"
    and "index_line fs current_dir d = Generated (current_dir @ [d, ''index.md''])"
  shows "lookup fs (current_dir @ [d, ''index.md'']) =
           Some (RegFile (index_text sep fs (current_dir @ [d])))"
  using assms by (simp add: settled_def index_line_def split: option.splits node.splits)

text \<open>
  Claim C6. The working directory is a directory and the names on the way and in its
  listing are names of entries. Then the driver returns, and run again on the tree it
  left it leaves exactly that tree and prints exactly the same lines: no file differs by
  a byte after the second run. Moreover, for every subdirectory it processes whose
  \<open>index.md\<close> is not a directory or a special file, the list rendered on the tree that
  holds the written index files is the list rendered on the tree before the first run,
  and the file left at \<open>index.md\<close> holds the two headings and that list, or the
  placeholder where the list is empty.
\<close>

theorem second_run_changes_nothing:
  assumes "isdir fs current_dir" and "valid_names current_dir"
    and "\<forall>items. listdir fs current_dir = Inr items \<longrightarrow> valid_names items"
  shows "\<exists>fs1 printed out.
      main sep fs current_dir = Inr (fs1, printed, out)
    \<and> main sep fs1 current_dir = Inr (fs1, printed, out)
    \<and> (\<forall>items d. listdir fs current_dir = Inr items \<longrightarrow> d \<in> set items \<longrightarrow>
          isdir fs (current_dir @ [d]) \<longrightarrow> \<not> is_ignored_dir d \<longrightarrow>
          (\<forall>r es. lookup fs (current_dir @ [d, ''index.md'']) \<noteq> Some (Dir r es)) \<longrightarrow>
          lookup fs (current_dir @ [d, ''index.md'']) \<noteq> Some Special \<longrightarrow>
          (\<exists>nested_list.
              generate_nested_list sep fs (current_dir @ [d]) (current_dir @ [d]) 0 = Inr nested_list
            \<and> generate_nested_list sep fs1 (current_dir @ [d]) (current_dir @ [d]) 0 = Inr nested_list
            \<and> lookup fs1 (current_dir @ [d, ''index.md'']) =
                Some (RegFile (''# '' @ d @ [CHR 0x0A, CHR 0x0A] @
                               ''## '' @ toc_title @ [CHR 0x0A, CHR 0x0A] @
                               (if nested_list = [] then ''* '' @ no_content_label @ [CHR 0x0A]
                                else nested_list)))))"
proof -
  from assms(1) consider
    (locked) "listdir fs current_dir = Inl PermissionError"
    | (listed) items where "listdir fs current_dir = Inr items"
    by (auto simp: isdir_iff_listdir)
  then show ?thesis
  proof cases
    case locked
    then have "main sep fs current_dir = Inr (fs, [CannotAccessWorkingDirectory], SysExit 1)"
      by (simp add: main_def)
    with locked show ?thesis by simp
  next
    case listed
    define ds where
      "ds = filter (\<lambda>item. isdir fs (current_dir @ [item]) \<and> \<not> is_ignored_dir item) items"
    show ?thesis
    proof (cases "ds = []")
      case True
      with listed have m: "main sep fs current_dir = Inr (fs, [NoSubdirectories], Returned)"
        by (simp add: main_def ds_def)
      have none: "\<not> (d \<in> set items \<and> isdir fs (current_dir @ [d]) \<and> \<not> is_ignored_dir d)" for d
      proof
        assume "d \<in> set items \<and> isdir fs (current_dir @ [d]) \<and> \<not> is_ignored_dir d"
        then have "d \<in> set ds" by (simp add: ds_def)
        with True show False by simp
      qed
      from m listed none show ?thesis by auto
    next
      case False
      obtain fs1 printed where e: "index_each sep fs current_dir ds = (fs1, printed)"
        by (cases "index_each sep fs current_dir ds")
      from listed False e have m: "main sep fs current_dir = Inr (fs1, printed, Returned)"
        by (simp add: main_def ds_def [symmetric] Let_def)
      from assms(3) listed have vi: "valid_names items" by simp
      have pre: "\<forall>d\<in>set ds. isdir fs (current_dir @ [d]) \<and> valid_names (current_dir @ [d])"
        using vi assms(2) by (auto simp: ds_def valid_names_def)
      from first_run [OF assms(1) pre, of sep] e
      have rf: "run_facts sep current_dir ds fs (fs1, printed)" by simp
      then have f1: "printed = map (index_line fs current_dir) ds"
        and f2: "listdir fs1 current_dir = listdir fs current_dir"
        and f3: "\<And>i. isdir fs1 (current_dir @ [i]) = isdir fs (current_dir @ [i])"
        and f4: "\<And>d0. index_line fs1 current_dir d0 = index_line fs current_dir d0"
        and f5: "\<And>d0. isdir fs (current_dir @ [d0]) \<Longrightarrow>
           generate_nested_list sep fs1 (current_dir @ [d0]) (current_dir @ [d0]) 0 =
           generate_nested_list sep fs (current_dir @ [d0]) (current_dir @ [d0]) 0"
        and f6: "\<And>d0. d0 \<in> set ds \<Longrightarrow> settled sep fs1 (current_dir @ [d0])"
        by (simp_all add: run_facts_def)
      from f2 assms(1) have c1: "isdir fs1 current_dir" by (simp add: isdir_iff_listdir)
      have ds1: "filter (\<lambda>item. isdir fs1 (current_dir @ [item]) \<and> \<not> is_ignored_dir item) items = ds"
        by (simp add: ds_def f3)
      have pre1: "\<forall>d\<in>set ds. isdir fs1 (current_dir @ [d]) \<and> valid_names (current_dir @ [d]) \<and>
                     settled sep fs1 (current_dir @ [d])"
        using pre f3 f6 by simp
      from second_run [OF c1 pre1]
      have "index_each sep fs1 current_dir ds = (fs1, map (index_line fs1 current_dir) ds)" .
      with f1 f4 have e1: "index_each sep fs1 current_dir ds = (fs1, printed)" by simp
      from listed f2 False e1 ds1
      have m1: "main sep fs1 current_dir = Inr (fs1, printed, Returned)"
        by (simp add: main_def Let_def)
      have files: "\<exists>nested_list.
              generate_nested_list sep fs (current_dir @ [d]) (current_dir @ [d]) 0 = Inr nested_list
            \<and> generate_nested_list sep fs1 (current_dir @ [d]) (current_dir @ [d]) 0 = Inr nested_list
            \<and> lookup fs1 (current_dir @ [d, ''index.md'']) =
                Some (RegFile (''# '' @ d @ [CHR 0x0A, CHR 0x0A] @
                               ''## '' @ toc_title @ [CHR 0x0A, CHR 0x0A] @
                               (if nested_list = [] then ''* '' @ no_content_label @ [CHR 0x0A]
                                else nested_list)))"
        if d: "d \<in> set items" "isdir fs (current_dir @ [d])" "\<not> is_ignored_dir d"
          and w: "\<forall>r es. lookup fs (current_dir @ [d, ''index.md'']) \<noteq> Some (Dir r es)"
                 "lookup fs (current_dir @ [d, ''index.md'']) \<noteq> Some Special"
        for d
      proof -
        from d have mem: "d \<in> set ds" by (simp add: ds_def)
        from render_total(1) [of fs "current_dir @ [d]" sep "current_dir @ [d]" 0] d(2)
        obtain nested_list where
          r: "generate_nested_list sep fs (current_dir @ [d]) (current_dir @ [d]) 0 = Inr nested_list"
          by blast
        from f5 [OF d(2)] r
        have r1: "generate_nested_list sep fs1 (current_dir @ [d]) (current_dir @ [d]) 0 = Inr nested_list"
          by simp
        from w have "index_line fs current_dir d = Generated (current_dir @ [d, ''index.md''])"
          by (simp add: index_line_generated)
        with f4 have "index_line fs1 current_dir d = Generated (current_dir @ [d, ''index.md''])"
          by simp
        from settled_text [OF f6 [OF mem] this]
        have "lookup fs1 (current_dir @ [d, ''index.md'']) =
                Some (RegFile (index_text sep fs1 (current_dir @ [d])))" .
        with index_text_parts [OF r1]
        have "lookup fs1 (current_dir @ [d, ''index.md'']) =
                Some (RegFile (''# '' @ d @ [CHR 0x0A, CHR 0x0A] @
                               ''## '' @ toc_title @ [CHR 0x0A, CHR 0x0A] @
                               (if nested_list = [] then ''* '' @ no_content_label @ [CHR 0x0A]
                                else nested_list)))"
          by simp
        with r r1 show ?thesis by (intro exI [of _ nested_list] conjI)
      qed
      have "main sep fs current_dir = Inr (fs1, printed, Returned)
        \<and> main sep fs1 current_dir = Inr (fs1, printed, Returned)
        \<and> (\<forall>items d. listdir fs current_dir = Inr items \<longrightarrow> d \<in> set items \<longrightarrow>
          isdir fs (current_dir @ [d]) \<longrightarrow> \<not> is_ignored_dir d \<longrightarrow>
          (\<forall>r es. lookup fs (current_dir @ [d, ''index.md'']) \<noteq> Some (Dir r es)) \<longrightarrow>
          lookup fs (current_dir @ [d, ''index.md'']) \<noteq> Some Special \<longrightarrow>
          (\<exists>nested_list.
              generate_nested_list sep fs (current_dir @ [d]) (current_dir @ [d]) 0 = Inr nested_list
            \<and> generate_nested_list sep fs1 (current_dir @ [d]) (current_dir @ [d]) 0 = Inr nested_list
            \<and> lookup fs1 (current_dir @ [d, ''index.md'']) =
                Some (RegFile (''# '' @ d @ [CHR 0x0A, CHR 0x0A] @
                               ''## '' @ toc_title @ [CHR 0x0A, CHR 0x0A] @
                               (if nested_list = [] then ''* '' @ no_content_label @ [CHR 0x0A]
                                else nested_list)))))"
        using m m1 files listed by (intro conjI allI impI) simp_all
      then show ?thesis by (intro exI)
    qed
  qed
qed

theorem second_run_changes_nothing_witness:
  "isdir demo_fs [] \<and> valid_names []
   \<and> listdir demo_fs [] = Inr [''proj'', ''empty'', ''__pycache__'', ''top.md'']
   \<and> main (CHR ''/'') demo_fs [] =
       Inr (Dir True
              [(''proj'', Dir True
                 [(''readme.md'', RegFile []), (''notes.md'', RegFile []),
                  (''index.md'', RegFile
                     (''# proj'' @ [CHR 0x0A, CHR 0x0A] @ ''## '' @ toc_title @ [CHR 0x0A, CHR 0x0A] @
                      ''* [notes](notes.md)'' @ newline @ ''* [readme](readme.md)'' @ newline @
                      ''* [z](z.md)'' @ newline @
                      ''* a'' @ newline @
                      ''* locked'' @ newline @ ''    * ['' @ inaccessible_label @ '']'' @ newline @
                      ''* src'' @ newline @ ''    * [main](src/main.md)'' @ newline)),
                  (''z.md'', RegFile []), (''todo.txt'', RegFile []), (''sock'', Special),
                  (''.git'', Dir True [(''x.md'', RegFile [])]),
                  (''locked'', Dir False [(''secret.md'', RegFile [])]),
                  (''a'', Dir True []),
                  (''src'', Dir True [(''main.md'', RegFile [])])]),
               (''empty'', Dir True
                 [(''index.md'', RegFile
                     (''# empty'' @ [CHR 0x0A, CHR 0x0A] @ ''## '' @ toc_title @ [CHR 0x0A, CHR 0x0A] @
                      ''* '' @ no_content_label @ [CHR 0x0A]))]),
               (''__pycache__'', Dir True [(''c.md'', RegFile [])]),
               (''top.md'', RegFile [])],
            [Generated [''proj'', ''index.md''], Generated [''empty'', ''index.md'']],
            Returned)
   \<and> main (CHR ''/'')
         (Dir True
              [(''proj'', Dir True
                 [(''readme.md'', RegFile []), (''notes.md'', RegFile []),
                  (''index.md'', RegFile
                     (''# proj'' @ [CHR 0x0A, CHR 0x0A] @ ''## '' @ toc_title @ [CHR 0x0A, CHR 0x0A] @
                      ''* [notes](notes.md)'' @ newline @ ''* [readme](readme.md)'' @ newline @
                      ''* [z](z.md)'' @ newline @
                      ''* a'' @ newline @
                      ''* locked'' @ newline @ ''    * ['' @ inaccessible_label @ '']'' @ newline @
                      ''* src'' @ newline @ ''    * [main](src/main.md)'' @ newline)),
                  (''z.md'', RegFile []), (''todo.txt'', RegFile []), (''sock'', Special),
                  (''.git'', Dir True [(''x.md'', RegFile [])]),
                  (''locked'', Dir False [(''secret.md'', RegFile [])]),
                  (''a'', Dir True []),
                  (''src'', Dir True [(''main.md'', RegFile [])])]),
               (''empty'', Dir True
                 [(''index.md'', RegFile
                     (''# empty'' @ [CHR 0x0A, CHR 0x0A] @ ''## '' @ toc_title @ [CHR 0x0A, CHR 0x0A] @
                      ''* '' @ no_content_label @ [CHR 0x0A]))]),
               (''__pycache__'', Dir True [(''c.md'', RegFile [])]),
               (''top.md'', RegFile [])]) [] =
       Inr (Dir True
              [(''proj'', Dir True
                 [(''readme.md'', RegFile []), (''notes.md'', RegFile []),
                  (''index.md'', RegFile
                     (''# proj'' @ [CHR 0x0A, CHR 0x0A] @ ''## '' @ toc_title @ [CHR 0x0A, CHR 0x0A] @
                      ''* [notes](notes.md)'' @ newline @ ''* [readme](readme.md)'' @ newline @
                      ''* [z](z.md)'' @ newline @
                      ''* a'' @ newline @
                      ''* locked'' @ newline @ ''    * ['' @ inaccessible_label @ '']'' @ newline @
                      ''* src'' @ newline @ ''    * [main](src/main.md)'' @ newline)),
                  (''z.md'', RegFile []), (''todo.txt'', RegFile []), (''sock'', Special),
                  (''.git'', Dir True [(''x.md'', RegFile [])]),
                  (''locked'', Dir False [(''secret.md'', RegFile [])]),
                  (''a'', Dir True []),
                  (''src'', Dir True [(''main.md'', RegFile [])])]),
               (''empty'', Dir True
                 [(''index.md'', RegFile
                     (''# empty'' @ [CHR 0x0A, CHR 0x0A] @ ''## '' @ toc_title @ [CHR 0x0A, CHR 0x0A] @
                      ''* '' @ no_content_label @ [CHR 0x0A]))]),
               (''__pycache__'', Dir True [(''c.md'', RegFile [])]),
               (''top.md'', RegFile [])],
            [Generated [''proj'', ''index.md''], Generated [''empty'', ''index.md'']],
            Returned)"
proof -
  have h1: "isdir demo_fs []" and h2: "valid_names []"
    and l: "listdir demo_fs [] = Inr [''proj'', ''empty'', ''__pycache__'', ''top.md'']"
    by (simp_all add: isdir_def demo_fs_def valid_names_def listdir_def)
  have h3: "\<forall>items. listdir demo_fs [] = Inr items \<longrightarrow> valid_names items"
    by (simp add: l valid_names_def)
  from second_run_changes_nothing [OF h1 h2 h3, of "CHR ''/''"]
  obtain fs1 printed out where a: "main (CHR ''/'') demo_fs [] = Inr (fs1, printed, out)"
    and b: "main (CHR ''/'') fs1 [] = Inr (fs1, printed, out)"
    by (elim exE conjE)
  have m: "main (CHR ''/'') demo_fs [] =
       Inr (Dir True
              [(''proj'', Dir True
                 [(''readme.md'', RegFile []), (''notes.md'', RegFile []),
                  (''index.md'', RegFile
                     (''# proj'' @ [CHR 0x0A, CHR 0x0A] @ ''## '' @ toc_title @ [CHR 0x0A, CHR 0x0A] @
                      ''* [notes](notes.md)'' @ newline @ ''* [readme](readme.md)'' @ newline @
                      ''* [z](z.md)'' @ newline @
                      ''* a'' @ newline @
                      ''* locked'' @ newline @ ''    * ['' @ inaccessible_label @ '']'' @ newline @
                      ''* src'' @ newline @ ''    * [main](src/main.md)'' @ newline)),
                  (''z.md'', RegFile []), (''todo.txt'', RegFile []), (''sock'', Special),
                  (''.git'', Dir True [(''x.md'', RegFile [])]),
                  (''locked'', Dir False [(''secret.md'', RegFile [])]),
                  (''a'', Dir True []),
                  (''src'', Dir True [(''main.md'', RegFile [])])]),
               (''empty'', Dir True
                 [(''index.md'', RegFile
                     (''# empty'' @ [CHR 0x0A, CHR 0x0A] @ ''## '' @ toc_title @ [CHR 0x0A, CHR 0x0A] @
                      ''* '' @ no_content_label @ [CHR 0x0A]))]),
               (''__pycache__'', Dir True [(''c.md'', RegFile [])]),
               (''top.md'', RegFile [])],
            [Generated [''proj'', ''index.md''], Generated [''empty'', ''index.md'']],
            Returned)"
    by code_simp
  from a m b
  have m1: "main (CHR ''/'')
         (Dir True
              [(''proj'', Dir True
                 [(''readme.md'', RegFile []), (''notes.md'', RegFile []),
                  (''index.md'', RegFile
                     (''# proj'' @ [CHR 0x0A, CHR 0x0A] @ ''## '' @ toc_title @ [CHR 0x0A, CHR 0x0A] @
                      ''* [notes](notes.md)'' @ newline @ ''* [readme](readme.md)'' @ newline @
                      ''* [z](z.md)'' @ newline @
                      ''* a'' @ newline @
                      ''* locked'' @ newline @ ''    * ['' @ inaccessible_label @ '']'' @ newline @
                      ''* src'' @ newline @ ''    * [main](src/main.md)'' @ newline)),
                  (''z.md'', RegFile []), (''todo.txt'', RegFile []), (''sock'', Special),
                  (''.git'', Dir True [(''x.md'', RegFile [])]),
                  (''locked'', Dir False [(''secret.md'', RegFile [])]),
                  (''a'', Dir True []),
                  (''src'', Dir True [(''main.md'', RegFile [])])]),
               (''empty'', Dir True
                 [(''index.md'', RegFile
                     (''# empty'' @ [CHR 0x0A, CHR 0x0A] @ ''## '' @ toc_title @ [CHR 0x0A, CHR 0x0A] @
                      ''* '' @ no_content_label @ [CHR 0x0A]))]),
               (''__pycache__'', Dir True [(''c.md'', RegFile [])]),
               (''top.md'', RegFile [])]) [] =
       Inr (Dir True
              [(''proj'', Dir True
                 [(''readme.md'', RegFile []), (''notes.md'', RegFile []),
                  (''index.md'', RegFile
                     (''# proj'' @ [CHR 0x0A, CHR 0x0A] @ ''## '' @ toc_title @ [CHR 0x0A, CHR 0x0A] @
                      ''* [notes](notes.md)'' @ newline @ ''* [readme](readme.md)'' @ newline @
                      ''* [z](z.md)'' @ newline @
                      ''* a'' @ newline @
                      ''* locked'' @ newline @ ''    * ['' @ inaccessible_label @ '']'' @ newline @
                      ''* src'' @ newline @ ''    * [main](src/main.md)'' @ newline)),
                  (''z.md'', RegFile []), (''todo.txt'', RegFile []), (''sock'', Special),
                  (''.git'', Dir True [(''x.md'', RegFile [])]),
                  (''locked'', Dir False [(''secret.md'', RegFile [])]),
                  (''a'', Dir True []),
                  (''src'', Dir True [(''main.md'', RegFile [])])]),
               (''empty'', Dir True
                 [(''index.md'', RegFile
                     (''# empty'' @ [CHR 0x0A, CHR 0x0A] @ ''## '' @ toc_title @ [CHR 0x0A, CHR 0x0A] @
                      ''* '' @ no_content_label @ [CHR 0x0A]))]),
               (''__pycache__'', Dir True [(''c.md'', RegFile [])]),
               (''top.md'', RegFile [])],
            [Generated [''proj'', ''index.md''], Generated [''empty'', ''index.md'']],
            Returned)"
    by simp
  from h1 h2 l m m1 show ?thesis by (intro conjI)
qed

end
